theory Spec2Isabelle
  imports Complex_Main "HOL-Library.FSet"
begin

section \<open>Level-of-detail manager\<close>

text \<open>
  JavaScript numbers are read as mathematical numbers: quality levels, counters and
  frequencies as \<open>int\<close>, times, rates and scale factors as \<open>real\<close>. The model is that of
  the code on finite, non-NaN values. A property read of \<open>undefined\<close> raises a
  \<open>TypeError\<close>; it is a value of the model.
\<close>

datatype error = TypeError

datatype ShadowQuality = ShadowOff | ShadowLow | ShadowMedium | ShadowHigh

datatype ShadowMapType = BasicShadowMap | PCFShadowMap | PCFSoftShadowMap

record LodLevel =
  level :: int
  name :: string
  particleCount :: real
  geometryDetail :: real
  textureSize :: real
  shadowQuality :: ShadowQuality
  postProcessingEnabled :: bool
  effectComplexity :: real
  maxObjects :: int
  updateFrequency :: int

definition DEFAULT_LOD_LEVELS :: "LodLevel list" where
  "DEFAULT_LOD_LEVELS =
    [\<lparr>level = 0, name = ''Very Low'', particleCount = 100, geometryDetail = 0.2,
       textureSize = 0.25, shadowQuality = ShadowOff, postProcessingEnabled = False,
       effectComplexity = 0.1, maxObjects = 10, updateFrequency = 5\<rparr>,
     \<lparr>level = 1, name = ''Low'', particleCount = 300, geometryDetail = 0.4,
       textureSize = 0.5, shadowQuality = ShadowOff, postProcessingEnabled = False,
       effectComplexity = 0.3, maxObjects = 30, updateFrequency = 3\<rparr>,
     \<lparr>level = 2, name = ''Medium'', particleCount = 800, geometryDetail = 0.6,
       textureSize = 0.75, shadowQuality = ShadowLow, postProcessingEnabled = True,
       effectComplexity = 0.5, maxObjects = 100, updateFrequency = 2\<rparr>,
     \<lparr>level = 3, name = ''High'', particleCount = 1500, geometryDetail = 0.9,
       textureSize = 1.0, shadowQuality = ShadowMedium, postProcessingEnabled = True,
       effectComplexity = 0.75, maxObjects = 250, updateFrequency = 1\<rparr>,
     \<lparr>level = 4, name = ''Ultra'', particleCount = 3000, geometryDetail = 1.1,
       textureSize = 1.0, shadowQuality = ShadowHigh, postProcessingEnabled = True,
       effectComplexity = 1.0, maxObjects = 500, updateFrequency = 1\<rparr>]"

text \<open>The part of the WebGL renderer that \<open>applyRendererSettings\<close> writes.\<close>

record Renderer =
  devicePixelRatio :: real
  shadowMapEnabled :: bool
  shadowMapType :: ShadowMapType
  pixelRatio :: real
  anisotropyCapped :: bool

record LodManager =
  levels :: "LodLevel list"
  currentLevel :: int
  renderer :: Renderer
  frameCounter :: int
  dynamicUpdateFrequency :: bool
  distanceScalingEnabled :: bool
  importanceBasedLod :: bool
  importantObjects :: "nat set"
  adaptiveDistance :: real

definition applyRendererSettings :: "LodLevel \<Rightarrow> Renderer \<Rightarrow> Renderer" where
  "applyRendererSettings lod r =
    (let r1 = r\<lparr>shadowMapEnabled := (shadowQuality lod \<noteq> ShadowOff)\<rparr>;
         r2 = (case shadowQuality lod of
                 ShadowLow \<Rightarrow> r1\<lparr>shadowMapType := BasicShadowMap\<rparr>
               | ShadowMedium \<Rightarrow> r1\<lparr>shadowMapType := PCFShadowMap\<rparr>
               | ShadowHigh \<Rightarrow> r1\<lparr>shadowMapType := PCFSoftShadowMap\<rparr>
               | ShadowOff \<Rightarrow> r1);
         r3 = (if level lod = 0 then r2\<lparr>pixelRatio := devicePixelRatio r2 * 0.5\<rparr>
               else if level lod = 1 then r2\<lparr>pixelRatio := devicePixelRatio r2 * 0.75\<rparr>
               else r2\<lparr>pixelRatio := devicePixelRatio r2\<rparr>)
     in if level lod \<le> 1 then r3\<lparr>anisotropyCapped := True\<rparr> else r3)"

text \<open>\<open>this.levels[this.currentLevel]\<close>: \<open>undefined\<close> outside the table.\<close>

definition getCurrentLodLevel :: "LodManager \<Rightarrow> LodLevel option" where
  "getCurrentLodLevel s =
    (if 0 \<le> currentLevel s \<and> currentLevel s < int (length (levels s))
     then Some (levels s ! nat (currentLevel s)) else None)"

text \<open>
  \<open>LodManager.setQualityLevel\<close>. The second component of the result is the argument of
  the \<open>onLodChange\<close> callback when it is invoked, \<open>None\<close> when it is not.
\<close>

definition LodManager_setQualityLevel :: "int \<Rightarrow> LodManager \<Rightarrow> error + (LodManager \<times> LodLevel option)" where
  "LodManager_setQualityLevel lvl s =
    (let newLevel = max 0 (min (int (length (levels s)) - 1) lvl)
     in if newLevel = currentLevel s then Inr (s, None)
        else (let s1 = s\<lparr>currentLevel := newLevel\<rparr>
              in case getCurrentLodLevel s1 of
                   None \<Rightarrow> Inl TypeError
                 | Some lodLevel \<Rightarrow>
                     Inr (s1\<lparr>renderer := applyRendererSettings lodLevel (renderer s1)\<rparr>,
                          Some lodLevel)))"



section \<open>Performance monitor\<close>

text \<open>
  The metrics the frame loop reads and writes. \<open>minFps\<close> starts at \<open>Infinity\<close>, which is
  \<open>None\<close> here. The per-section timers (\<open>beginSection\<close>, \<open>endSection\<close>) and the Stats.js
  overlay write fields that no decision of the monitor reads; they are left out.
\<close>

record PerformanceMetrics =
  fps :: real
  averageFps :: real
  minFps :: "real option"
  maxFps :: real
  fpsStability :: real
  frameTime :: real
  averageFrameTime :: real
  maxFrameTime :: real
  memoryUsage :: real
  memoryPeak :: real
  isPerformanceCritical :: bool
  isMemoryConstrained :: bool
  currentQualityLevel :: int
  targetQualityLevel :: int
  gcTime :: real
  drawCalls :: real
  triangles :: real
  particles :: real
  frameBudgetUsage :: real
  hasFrameDrops :: bool

record PerformanceSettings =
  targetFps :: real
  criticalFps :: real
  adjustmentPeriod :: real
  qualityLevels :: int

record PerformanceMonitor =
  metrics :: PerformanceMetrics
  settings :: PerformanceSettings
  fpsHistory :: "real list"
  frameTimeHistory :: "real list"
  memoryHistory :: "real list"
  historySize :: nat
  lastAdjustmentTime :: real
  frameCount :: int
  monitorMemoryPeak :: real
  frameStartTime :: real
  lastFrameTime :: real
  gcDetectionThreshold :: real
  frameBudget :: real
  lastDrawCalls :: real
  currentDrawCalls :: real
  triangleCount :: real
  particleCount_tracked :: real

text \<open>
  What one \<open>endFrame\<close> call reads from its environment: the two readings of
  \<open>performance.now()\<close> (in \<open>endFrame\<close>, then in \<open>checkQualityAdjustment\<close>), the heap figures
  \<open>(usedJSHeapSize, jsHeapSizeLimit)\<close> when the platform has them, and the renderer's
  \<open>(calls, triangles)\<close> counters when it has them.
\<close>

record FrameEnv =
  now :: real
  checkNow :: real
  memory :: "(real \<times> real) option"
  renderInfo :: "(real \<times> real) option"

definition defaultSettings :: PerformanceSettings where
  "defaultSettings =
    \<lparr>targetFps = 60, criticalFps = 30, adjustmentPeriod = 2000, qualityLevels = 5\<rparr>"

definition PerformanceMonitor_new :: "PerformanceSettings \<Rightarrow> PerformanceMonitor" where
  "PerformanceMonitor_new st =
    \<lparr>metrics =
       \<lparr>fps = 0, averageFps = 0, minFps = None, maxFps = 0, fpsStability = 1.0,
        frameTime = 0, averageFrameTime = 0, maxFrameTime = 0, memoryUsage = 0,
        memoryPeak = 0, isPerformanceCritical = False, isMemoryConstrained = False,
        currentQualityLevel = qualityLevels st - 1,
        targetQualityLevel = qualityLevels st - 1,
        gcTime = 0, drawCalls = 0, triangles = 0, particles = 0,
        frameBudgetUsage = 0, hasFrameDrops = False\<rparr>,
     settings = st,
     fpsHistory = [], frameTimeHistory = [], memoryHistory = [],
     historySize = 60, lastAdjustmentTime = 0, frameCount = 0,
     monitorMemoryPeak = 0, frameStartTime = 0, lastFrameTime = 0,
     gcDetectionThreshold = 50, frameBudget = 1000 / targetFps st,
     lastDrawCalls = 0, currentDrawCalls = 0, triangleCount = 0,
     particleCount_tracked = 0\<rparr>"

definition beginFrame :: "real \<Rightarrow> (real \<times> real) option \<Rightarrow> PerformanceMonitor \<Rightarrow> PerformanceMonitor" where
  "beginFrame t info m =
    (let m1 = m\<lparr>frameStartTime := t\<rparr>
     in case info of
          None \<Rightarrow> m1
        | Some (calls, tris) \<Rightarrow> m1\<lparr>lastDrawCalls := calls, triangleCount := tris\<rparr>)"

text \<open>\<open>xs.push(x); if (xs.length > historySize) xs.shift()\<close>\<close>

definition pushHistory :: "nat \<Rightarrow> real \<Rightarrow> real list \<Rightarrow> real list" where
  "pushHistory n x xs = (let ys = xs @ [x] in if length ys > n then tl ys else ys)"

text \<open>The phases of \<open>endFrame\<close>, in the order of the source.\<close>

definition detectGc :: "FrameEnv \<Rightarrow> PerformanceMonitor \<Rightarrow> PerformanceMonitor" where
  "detectGc env m =
    (let timeSinceLastFrame = now env - lastFrameTime m;
         g = (if lastFrameTime m > 0 \<and> timeSinceLastFrame > gcDetectionThreshold m
              then timeSinceLastFrame else gcTime (metrics m) * 0.9)
     in m\<lparr>metrics := (metrics m)\<lparr>gcTime := g\<rparr>,
          lastFrameTime := now env,
          frameCount := frameCount m + 1\<rparr>)"

definition updateFrameStats :: "real \<Rightarrow> PerformanceMonitor \<Rightarrow> PerformanceMonitor" where
  "updateFrameStats ft m =
    (let currentFps = (if fps (metrics m) = 0 then 60 else fps (metrics m));
         fth = pushHistory (historySize m) ft (frameTimeHistory m);
         fh = pushHistory (historySize m) currentFps (fpsHistory m)
     in m\<lparr>metrics := (metrics m)
            \<lparr>fps := currentFps,
             frameTime := ft,
             minFps := (case minFps (metrics m) of
                          None \<Rightarrow> Some currentFps
                        | Some lo \<Rightarrow> Some (min lo currentFps)),
             maxFps := max (maxFps (metrics m)) currentFps,
             maxFrameTime := max (maxFrameTime (metrics m)) ft,
             averageFps := sum_list fh / real (length fh),
             averageFrameTime := sum_list fth / real (length fth)\<rparr>,
          frameTimeHistory := fth,
          fpsHistory := fh\<rparr>)"

definition stabilityOf :: "real list \<Rightarrow> real \<Rightarrow> real" where
  "stabilityOf h avg =
    (let fpsVariance = sum_list (map (\<lambda>x. (x - avg) ^ 2) h) / real (length h);
         fpsStdDev = sqrt fpsVariance
     in max 0 (1 - fpsStdDev / avg))"

definition updateStability :: "PerformanceMonitor \<Rightarrow> PerformanceMonitor" where
  "updateStability m =
    (if length (fpsHistory m) > 5
     then m\<lparr>metrics := (metrics m)
            \<lparr>fpsStability := stabilityOf (fpsHistory m) (averageFps (metrics m))\<rparr>\<rparr>
     else m)"

definition updateMemory :: "FrameEnv \<Rightarrow> PerformanceMonitor \<Rightarrow> PerformanceMonitor" where
  "updateMemory env m =
    (case memory env of
       None \<Rightarrow> m
     | Some (usedJSHeapSize, jsHeapSizeLimit) \<Rightarrow>
        (let currentMemory = usedJSHeapSize / (1024 * 1024);
             peak = max (monitorMemoryPeak m) currentMemory;
             memoryLimit = jsHeapSizeLimit / (1024 * 1024)
         in m\<lparr>metrics := (metrics m)
                \<lparr>memoryUsage := currentMemory,
                 memoryPeak := peak,
                 isMemoryConstrained := (currentMemory > memoryLimit * 0.8)\<rparr>,
              monitorMemoryPeak := peak,
              memoryHistory := pushHistory (historySize m) currentMemory (memoryHistory m)\<rparr>))"

definition updateDrawCalls :: "FrameEnv \<Rightarrow> PerformanceMonitor \<Rightarrow> PerformanceMonitor" where
  "updateDrawCalls env m =
    (case renderInfo env of
       None \<Rightarrow> m
     | Some (calls, tris) \<Rightarrow>
         m\<lparr>metrics := (metrics m)\<lparr>drawCalls := calls, triangles := tris\<rparr>,
           currentDrawCalls := calls\<rparr>)"

definition updateBudget :: "real \<Rightarrow> PerformanceMonitor \<Rightarrow> PerformanceMonitor" where
  "updateBudget ft m =
    (let targetFrameTime = 1000 / targetFps (settings m);
         usage = min 1 (ft / targetFrameTime)
     in m\<lparr>metrics := (metrics m)
            \<lparr>frameBudgetUsage := usage,
             hasFrameDrops := (ft > targetFrameTime * 1.2),
             isPerformanceCritical :=
               (averageFps (metrics m) < criticalFps (settings m) \<or> usage > 0.95)\<rparr>\<rparr>)"

text \<open>
  The \<open>if / else if\<close> chain of \<open>checkQualityAdjustment\<close>: the proposed level and
  \<open>needsAdjustment\<close>.
\<close>

definition adjustmentRules :: "PerformanceMonitor \<Rightarrow> int \<times> bool" where
  "adjustmentRules m =
    (let mt = metrics m; st = settings m; targetLevel = currentQualityLevel mt
     in if isMemoryConstrained mt then (max 0 (targetLevel - 1), True)
        else if isPerformanceCritical mt then (max 0 (targetLevel - 1), True)
        else if frameBudgetUsage mt > 0.9 \<and> fpsStability mt < 0.7
          then (max 0 (targetLevel - 1), True)
        else if averageFps mt > targetFps st * 1.1 \<and> fpsStability mt > 0.8
                \<and> frameBudgetUsage mt < 0.7
          then (if targetLevel < qualityLevels st - 1 then (targetLevel + 1, True)
                else (targetLevel, False))
        else if averageFps mt < targetFps st * 0.9 \<or> fpsStability mt < 0.6
          then (max 0 (targetLevel - 1), True)
        else (targetLevel, False))"

text \<open>The separate \<open>gcTime\<close> rule, applied to what the chain proposed.\<close>

definition gcRule :: "PerformanceMonitor \<Rightarrow> int \<times> bool \<Rightarrow> int \<times> bool" where
  "gcRule m p = (if gcTime (metrics m) > 30 then (max 0 (fst p - 1), True) else p)"

text \<open>
  The body of \<open>checkQualityAdjustment\<close> after its two early returns: the rules, then the
  update of the target level. The result carries the argument of the \<open>onQualityChange\<close>
  callback when it is invoked.
\<close>

definition applyRules :: "real \<Rightarrow> PerformanceMonitor \<Rightarrow> PerformanceMonitor \<times> int option" where
  "applyRules t m =
    (let (targetLevel, needsAdjustment) = gcRule m (adjustmentRules m)
     in if needsAdjustment \<and> targetLevel \<noteq> targetQualityLevel (metrics m)
        then (m\<lparr>metrics := (metrics m)\<lparr>targetQualityLevel := targetLevel\<rparr>,
                lastAdjustmentTime := t\<rparr>, Some targetLevel)
        else (m, None))"

text \<open>The two guards in front of the rules: the adjustment period and the warm-up.\<close>

definition reachesRules :: "real \<Rightarrow> PerformanceMonitor \<Rightarrow> bool" where
  "reachesRules t m =
    (\<not> (t - lastAdjustmentTime m < adjustmentPeriod (settings m)) \<and> \<not> (frameCount m < 100))"

definition checkQualityAdjustment :: "real \<Rightarrow> PerformanceMonitor \<Rightarrow> PerformanceMonitor \<times> int option" where
  "checkQualityAdjustment t m =
    (if t - lastAdjustmentTime m < adjustmentPeriod (settings m) then (m, None)
     else if frameCount m < 100 then (m, None)
     else applyRules t m)"

text \<open>\<open>endFrame\<close> up to, and without, its last statement.\<close>

definition frameMetrics :: "FrameEnv \<Rightarrow> PerformanceMonitor \<Rightarrow> PerformanceMonitor" where
  "frameMetrics env m =
    (let ft = now env - frameStartTime m;
         m1 = detectGc env m;
         m2 = updateFrameStats ft m1;
         m3 = updateStability m2;
         m4 = updateMemory env m3;
         m5 = updateDrawCalls env m4
     in updateBudget ft m5)"

definition endFrame :: "FrameEnv \<Rightarrow> PerformanceMonitor \<Rightarrow> PerformanceMonitor \<times> int option" where
  "endFrame env m = checkQualityAdjustment (checkNow env) (frameMetrics env m)"

text \<open>Whether the \<open>endFrame\<close> call gets past both guards, to the rules.\<close>

definition evaluatesRules :: "FrameEnv \<Rightarrow> PerformanceMonitor \<Rightarrow> bool" where
  "evaluatesRules env m = reachesRules (checkNow env) (frameMetrics env m)"

definition PerformanceMonitor_setQualityLevel :: "int \<Rightarrow> PerformanceMonitor \<Rightarrow> PerformanceMonitor \<times> int option" where
  "PerformanceMonitor_setQualityLevel lvl m =
    (let clampedLevel = max 0 (min (qualityLevels (settings m) - 1) lvl)
     in (m\<lparr>metrics := (metrics m)\<lparr>currentQualityLevel := clampedLevel,
                                   targetQualityLevel := clampedLevel\<rparr>\<rparr>,
         Some clampedLevel))"

section \<open>The monitor wired to the LOD manager\<close>

record DeviceCaps =
  hasWebGL :: bool
  isMobile :: bool
  isHighEnd :: bool

definition detectDeviceCapabilities :: "DeviceCaps \<Rightarrow> int" where
  "detectDeviceCapabilities c =
    (if \<not> hasWebGL c then 0
     else if isMobile c then 1
     else if isHighEnd c then 3
     else 2)"

text \<open>
  The constructor of \<open>LodManager\<close> reads \<open>levels[this.currentLevel].name\<close>, which raises on
  an empty table.
\<close>

definition LodManager_new :: "Renderer \<Rightarrow> LodLevel list \<Rightarrow> DeviceCaps \<Rightarrow> error + LodManager" where
  "LodManager_new r lv c =
    (let initialQualityGuess = detectDeviceCapabilities c;
         s = \<lparr>levels = lv, currentLevel = min initialQualityGuess (int (length lv) - 1),
              renderer = r, frameCounter = 0, dynamicUpdateFrequency = True,
              distanceScalingEnabled = True, importanceBasedLod = True,
              importantObjects = {}, adaptiveDistance = 50\<rparr>
     in case getCurrentLodLevel s of
          None \<Rightarrow> Inl TypeError
        | Some lod \<Rightarrow> Inr (s\<lparr>renderer := applyRendererSettings lod r\<rparr>))"

definition LodManager_handleMemoryPressure :: "LodManager \<Rightarrow> error + LodManager" where
  "LodManager_handleMemoryPressure s =
    (case (if currentLevel s > 0
           then LodManager_setQualityLevel (max 0 (currentLevel s - 1)) s
           else Inr (s, None)) of
       Inl e \<Rightarrow> Inl e
     | Inr (s1, cb) \<Rightarrow> Inr (s1\<lparr>adaptiveDistance := 30\<rparr>))"

record System =
  monitor :: PerformanceMonitor
  lod :: LodManager

text \<open>
  \<open>setupPerformanceCallback\<close> makes \<open>LodManager.setQualityLevel\<close> the monitor's
  \<open>onQualityChange\<close>: every level the monitor announces goes there.
\<close>

definition onQualityChange :: "int option \<Rightarrow> LodManager \<Rightarrow> error + LodManager" where
  "onQualityChange cb l =
    (case cb of
       None \<Rightarrow> Inr l
     | Some q \<Rightarrow> (case LodManager_setQualityLevel q l of
                    Inl e \<Rightarrow> Inl e
                  | Inr (l1, lodcb) \<Rightarrow> Inr l1))"

text \<open>
  Construction as in \<open>initPerformanceMonitoring\<close>: the monitor, then the LOD manager, whose
  constructor sets the monitor's level to its own starting level (the callback of that one
  call is still the one given to the monitor, which finds no LOD manager yet).
\<close>

definition System_new :: "PerformanceSettings \<Rightarrow> Renderer \<Rightarrow> LodLevel list \<Rightarrow> DeviceCaps \<Rightarrow> error + System" where
  "System_new st r lv c =
    (case LodManager_new r lv c of
       Inl e \<Rightarrow> Inl e
     | Inr l \<Rightarrow>
         Inr \<lparr>monitor = fst (PerformanceMonitor_setQualityLevel (currentLevel l)
                               (PerformanceMonitor_new st)),
              lod = l\<rparr>)"

datatype Op =
    BeginFrame real "(real \<times> real) option"
  | EndFrame FrameEnv
  | MonitorSetQuality int
  | LodSetQuality int
  | LodMemoryPressure

definition withMonitor :: "PerformanceMonitor \<times> int option \<Rightarrow> System \<Rightarrow> error + System" where
  "withMonitor r s =
    (case onQualityChange (snd r) (lod s) of
       Inl e \<Rightarrow> Inl e
     | Inr l \<Rightarrow> Inr \<lparr>monitor = fst r, lod = l\<rparr>)"

fun step :: "Op \<Rightarrow> System \<Rightarrow> error + System" where
  "step (BeginFrame t info) s = Inr (s\<lparr>monitor := beginFrame t info (monitor s)\<rparr>)"
| "step (EndFrame env) s = withMonitor (endFrame env (monitor s)) s"
| "step (MonitorSetQuality n) s =
     withMonitor (PerformanceMonitor_setQualityLevel n (monitor s)) s"
| "step (LodSetQuality n) s =
     (case LodManager_setQualityLevel n (lod s) of
        Inl e \<Rightarrow> Inl e
      | Inr (l, cb) \<Rightarrow> Inr (s\<lparr>lod := l\<rparr>))"
| "step LodMemoryPressure s =
     (case LodManager_handleMemoryPressure (lod s) of
        Inl e \<Rightarrow> Inl e
      | Inr l \<Rightarrow> Inr (s\<lparr>lod := l\<rparr>))"

fun run :: "Op list \<Rightarrow> System \<Rightarrow> error + System" where
  "run [] s = Inr s"
| "run (x # xs) s = (case step x s of Inl e \<Rightarrow> Inl e | Inr s1 \<Rightarrow> run xs s1)"

definition levelsInRange :: "System \<Rightarrow> bool" where
  "levelsInRange s =
    (0 \<le> currentQualityLevel (metrics (monitor s))
     \<and> currentQualityLevel (metrics (monitor s)) \<le> qualityLevels (settings (monitor s)) - 1
     \<and> 0 \<le> targetQualityLevel (metrics (monitor s))
     \<and> targetQualityLevel (metrics (monitor s)) \<le> qualityLevels (settings (monitor s)) - 1
     \<and> 0 \<le> currentLevel (lod s)
     \<and> currentLevel (lod s) \<le> int (length (levels (lod s))) - 1)"

text \<open>A system that can run: in range, with at least one level on either side.\<close>

definition systemOk :: "System \<Rightarrow> bool" where
  "systemOk s =
    (levelsInRange s \<and> 1 \<le> qualityLevels (settings (monitor s)) \<and> levels (lod s) \<noteq> [])"

section \<open>When the automatic adjustment announces a level\<close>

text \<open>
  The times (the \<open>performance.now()\<close> reading of \<open>checkQualityAdjustment\<close>) at which the
  \<open>endFrame\<close> calls of a run invoke \<open>onQualityChange\<close>, in order.
\<close>

definition announced :: "Op \<Rightarrow> System \<Rightarrow> real list" where
  "announced x s =
    (case x of
       EndFrame env \<Rightarrow> (if snd (endFrame env (monitor s)) = None then [] else [checkNow env])
     | _ \<Rightarrow> [])"

fun announcements :: "Op list \<Rightarrow> System \<Rightarrow> real list" where
  "announcements [] s = []"
| "announcements (x # xs) s =
     announced x s @ (case step x s of Inl e \<Rightarrow> [] | Inr s1 \<Rightarrow> announcements xs s1)"

text \<open>Each time of the list is at least \<open>p\<close> after the one before it, the first after \<open>t0\<close>.\<close>

fun spaced :: "real \<Rightarrow> real \<Rightarrow> real list \<Rightarrow> bool" where
  "spaced p t0 [] = True"
| "spaced p t0 (t # ts) = (p \<le> t - t0 \<and> spaced p t ts)"

definition exampleEnv :: "real \<Rightarrow> FrameEnv" where
  "exampleEnv t = \<lparr>now = t, checkNow = t, memory = None, renderInfo = None\<rparr>"

text \<open>
  A run of even frames on a monitor: frame \<open>k\<close> begins at \<open>25 k\<close> ms and ends 10 ms later,
  with no memory figures and no renderer counters.
\<close>

fun nominalRun :: "nat \<Rightarrow> PerformanceMonitor \<Rightarrow> PerformanceMonitor" where
  "nominalRun 0 m = m"
| "nominalRun (Suc k) m =
     fst (endFrame (exampleEnv (25 * real k + 10))
            (beginFrame (25 * real k) None (nominalRun k m)))"

text \<open>What such a run keeps true of a monitor with the default settings, \<open>k\<close> frames in.\<close>

definition steady :: "nat \<Rightarrow> PerformanceMonitor \<Rightarrow> bool" where
  "steady k m =
    (settings m = defaultSettings \<and> frameCount m = int k \<and> lastAdjustmentTime m = 0
     \<and> historySize m = 60 \<and> gcDetectionThreshold m = 50
     \<and> lastFrameTime m = (if k = 0 then 0 else 25 * real k - 15)
     \<and> gcTime (metrics m) = 0 \<and> \<not> isMemoryConstrained (metrics m)
     \<and> (fps (metrics m) = 0 \<or> fps (metrics m) = 60)
     \<and> list_all (\<lambda>x. x = 60) (fpsHistory m)
     \<and> fpsStability (metrics m) = 1
     \<and> currentQualityLevel (metrics m) = 4 \<and> targetQualityLevel (metrics m) = 4)"

section \<open>Statistics, in the words of the specification\<close>

text \<open>
  The average and the (population) standard deviation of a window of samples, and the
  stability score \<open>max(0, 1 - stddev / avg)\<close>. These are the specification's terms; the
  code's own computation is \<open>updateFrameStats\<close> and \<open>stabilityOf\<close>.
\<close>

definition mean :: "real list \<Rightarrow> real" where
  "mean xs = sum_list xs / real (length xs)"

definition stddev :: "real list \<Rightarrow> real" where
  "stddev xs = sqrt (sum_list (map (\<lambda>x. (x - mean xs) ^ 2) xs) / real (length xs))"

definition stabilityScore :: "real list \<Rightarrow> real" where
  "stabilityScore xs = max 0 (1 - stddev xs / mean xs)"


section \<open>Object pool\<close>

text \<open>
  Objects are compared by identity; \<open>resetFn\<close> changes an object in place and is not
  visible here. The factory is the sequence of the objects it returns: \<open>createFn n\<close> is
  the result of its call number \<open>n\<close>, counted from 0, and \<open>creationCount\<close> counts the calls.
  \<open>timers\<close> holds the \<open>createBatch\<close> continuations that \<open>setTimeout\<close> has queued, as
  \<open>(created, toCreate)\<close>; \<open>diagnostics\<close> is what went to the console. The two clocks
  \<open>creationTime\<close> and \<open>resetTime\<close> are summed and never read by the pool; they are left out.
\<close>

record 'a Pool =
  pool :: "'a list"
  inUse :: "'a fset"
  maxSize :: int
  minSize :: int
  objectSize :: int
  creationCount :: nat
  usageHistory :: "nat list"
  poolHits :: nat
  poolMisses :: nat
  maxUsageCount :: nat
  lastAdaptiveCheck :: real
  timers :: "(nat \<times> nat) list"
  diagnostics :: "string list"

definition Pool_size :: "'a Pool \<Rightarrow> nat" where
  "Pool_size s = length (pool s) + fcard (inUse s)"

definition available :: "'a Pool \<Rightarrow> nat" where
  "available s = length (pool s)"

definition inUseCount :: "'a Pool \<Rightarrow> nat" where
  "inUseCount s = fcard (inUse s)"

text \<open>
  One run of \<open>createBatch\<close>: up to 10 objects are created and pushed, and the rest is left
  to a timer.
\<close>

definition createBatch :: "(nat \<Rightarrow> 'a) \<Rightarrow> nat \<Rightarrow> nat \<Rightarrow> 'a Pool \<Rightarrow> 'a Pool" where
  "createBatch createFn created toCreate s =
    (let batchEnd = min (created + 10) toCreate;
         n = batchEnd - created;
         s1 = s\<lparr>pool := pool s @ map createFn [creationCount s ..< creationCount s + n],
                creationCount := creationCount s + n\<rparr>
     in if batchEnd < toCreate then s1\<lparr>timers := timers s1 @ [(batchEnd, toCreate)]\<rparr>
        else s1)"

definition prewarm :: "(nat \<Rightarrow> 'a) \<Rightarrow> int \<Rightarrow> 'a Pool \<Rightarrow> 'a Pool" where
  "prewarm createFn count s =
    (let toCreate = max 0 (count - int (length (pool s)))
     in if toCreate \<le> 0 then s
        else createBatch createFn 0 (nat toCreate)
               (s\<lparr>diagnostics := diagnostics s @ [''Prewarming pool'']\<rparr>))"

text \<open>A queued \<open>createBatch\<close> runs when its timer fires.\<close>

definition runTimer :: "(nat \<Rightarrow> 'a) \<Rightarrow> 'a Pool \<Rightarrow> 'a Pool" where
  "runTimer createFn s =
    (case timers s of
       [] \<Rightarrow> s
     | (created, toCreate) # rest \<Rightarrow> createBatch createFn created toCreate (s\<lparr>timers := rest\<rparr>))"

definition trim :: "int \<Rightarrow> 'a Pool \<Rightarrow> 'a Pool" where
  "trim n s =
    (if int (length (pool s)) \<le> n then s
     else (let removeCount = int (length (pool s)) - n
           in s\<lparr>pool := drop (nat removeCount) (pool s),
                diagnostics := diagnostics s @ [''Trimming pool'']\<rparr>))"

definition recordUsage :: "'a Pool \<Rightarrow> 'a Pool" where
  "recordUsage s =
    (let h = usageHistory s @ [fcard (inUse s)]
     in s\<lparr>usageHistory := (if length h > 100 then tl h else h)\<rparr>)"

definition checkAdaptiveSize :: "(nat \<Rightarrow> 'a) \<Rightarrow> 'a Pool \<Rightarrow> 'a Pool" where
  "checkAdaptiveSize createFn s =
    (if length (usageHistory s) < 50 then s
     else (let maxUsage = Max (set (usageHistory s));
               idealPoolSize = max (minSize s) \<lceil>real maxUsage * 1.2\<rceil>
           in if real (length (pool s)) > real_of_int idealPoolSize * 1.5
              then trim idealPoolSize s
              else if int (length (pool s)) < idealPoolSize
                      \<and> (maxSize s = 0
                          \<or> int (length (pool s)) + int (fcard (inUse s)) < maxSize s)
              then prewarm createFn (idealPoolSize - int (length (pool s))) s
              else s))"

definition Pool_get :: "(nat \<Rightarrow> 'a) \<Rightarrow> 'a Pool \<Rightarrow> 'a \<times> 'a Pool" where
  "Pool_get createFn s =
    (let s1 = recordUsage s;
         (obj, s2) = (if length (pool s1) > 0
                      then (last (pool s1),
                            s1\<lparr>pool := butlast (pool s1), poolHits := poolHits s1 + 1\<rparr>)
                      else (createFn (creationCount s1),
                            s1\<lparr>creationCount := creationCount s1 + 1,
                               poolMisses := poolMisses s1 + 1\<rparr>));
         s3 = s2\<lparr>inUse := finsert obj (inUse s2)\<rparr>
     in (obj, if fcard (inUse s3) > maxUsageCount s3
              then s3\<lparr>maxUsageCount := fcard (inUse s3)\<rparr> else s3))"

definition Pool_release :: "(nat \<Rightarrow> 'a) \<Rightarrow> 'a \<Rightarrow> 'a Pool \<Rightarrow> 'a Pool" where
  "Pool_release createFn obj s =
    (if obj |\<notin>| inUse s
     then s\<lparr>diagnostics := diagnostics s
                @ [''Trying to release an object not managed by this pool'']\<rparr>
     else (let s1 = s\<lparr>inUse := inUse s |-| {|obj|}\<rparr>
           in if maxSize s1 > 0 \<and> int (length (pool s1)) \<ge> maxSize s1 then s1
              else checkAdaptiveSize createFn (s1\<lparr>pool := pool s1 @ [obj]\<rparr>)))"

definition Pool_clear :: "'a Pool \<Rightarrow> 'a Pool" where
  "Pool_clear s =
    s\<lparr>pool := [], inUse := {||}, usageHistory := [], poolHits := 0, poolMisses := 0,
      maxUsageCount := 0, lastAdaptiveCheck := 0\<rparr>"

definition Pool_handleMemoryPressure :: "'a Pool \<Rightarrow> 'a Pool" where
  "Pool_handleMemoryPressure s =
    (if int (length (pool s)) > minSize s
     then s\<lparr>pool := drop (nat (int (length (pool s)) - minSize s)) (pool s),
            diagnostics := diagnostics s @ [''Memory pressure: trimming pool'']\<rparr>
     else s)"

definition Pool_new :: "(nat \<Rightarrow> 'a) \<Rightarrow> int \<Rightarrow> int \<Rightarrow> int \<Rightarrow> int \<Rightarrow> 'a Pool" where
  "Pool_new createFn initialSize maxSz minSz estimatedObjectSize =
    (let s = \<lparr>pool = [], inUse = {||}, maxSize = maxSz, minSize = minSz,
              objectSize = estimatedObjectSize, creationCount = 0, usageHistory = [],
              poolHits = 0, poolMisses = 0, maxUsageCount = 0, lastAdaptiveCheck = 0,
              timers = [], diagnostics = []\<rparr>
     in if initialSize > 0 then prewarm createFn initialSize s else s)"

text \<open>\<open>const obj = pool.get(); pool.release(obj)\<close>\<close>

definition getThenRelease :: "(nat \<Rightarrow> 'a) \<Rightarrow> 'a Pool \<Rightarrow> 'a \<times> 'a Pool" where
  "getThenRelease createFn s =
    (let (obj, s1) = Pool_get createFn s in (obj, Pool_release createFn obj s1))"

section \<open>Update gate of the LOD manager\<close>

text \<open>
  \<open>shouldUpdate\<close> counts the frame, then reads the current level. \<open>a % b === 0\<close> on integers
  is false for \<open>b = 0\<close> (the remainder is NaN) and otherwise says that \<open>b\<close> divides \<open>a\<close>.
\<close>

definition shouldUpdate :: "real \<Rightarrow> real \<Rightarrow> LodManager \<Rightarrow> error + (bool \<times> LodManager)" where
  "shouldUpdate importance distance s =
    (case getCurrentLodLevel s of
       None \<Rightarrow> Inl TypeError
     | Some lodLevel \<Rightarrow>
        (let s1 = s\<lparr>frameCounter := frameCounter s + 1\<rparr>;
             f0 = updateFrequency lodLevel;
             f1 = (if dynamicUpdateFrequency s \<and> importance > 0.8 then max 1 (f0 - 1) else f0);
             effectiveFrequency =
               (if dynamicUpdateFrequency s \<and> distance > adaptiveDistance s
                   \<and> distanceScalingEnabled s
                then (let distanceFactor = min 3 (\<lfloor>(distance - adaptiveDistance s) / 30\<rfloor> + 1)
                      in min 6 (f1 + distanceFactor))
                else f1)
         in Inr (effectiveFrequency \<noteq> 0 \<and> frameCounter s1 mod effectiveFrequency = 0, s1)))"

definition getEffectComplexity :: "LodManager \<Rightarrow> real option" where
  "getEffectComplexity s = map_option effectComplexity (getCurrentLodLevel s)"

section \<open>Base visualization\<close>

text \<open>
  The scene graph is a forest of objects, each with its identity and its children.
  \<open>scene.remove(o)\<close> is that of three.js: it takes \<open>o\<close> out of the scene's own children
  when it is one of them, and with it the subtree under \<open>o\<close>. GPU resources (textures,
  materials, geometries) are known by a number; \<open>disposed\<close> lists the \<open>dispose()\<close> calls
  made on them. A cached resource carries \<open>userData.lastUsed\<close> when it was ever set.
\<close>

datatype Object3D = Object3D (objId: nat) (childrenOf: "Object3D list")

fun nodes :: "Object3D \<Rightarrow> Object3D set" where
  "nodes (Object3D i cs) = insert (Object3D i cs) (\<Union> (nodes ` set cs))"

definition sceneGraph :: "Object3D list \<Rightarrow> Object3D set" where
  "sceneGraph cs = \<Union> (nodes ` set cs)"

record Resource =
  resId :: nat
  lastUsed :: "real option"

record Beat =
  detected :: bool
  confidence :: real
  bpm :: real

record AudioAnalysisData =
  frequencyData :: "real list"
  timeData :: "real list"
  volume :: real
  beat :: Beat
  energyDistribution :: "real \<times> real \<times> real"

record Camera =
  position :: "real \<times> real \<times> real"

datatype ShaderComplexity = LowComplexity | MediumComplexity | HighComplexity

record Uniforms =
  timeValue :: real
  beatValue :: real
  volumeValue :: real
  qualityScaleValue :: real

text \<open>
  The fields of \<open>BaseVisualization\<close>. The LOD manager is held by reference in the source;
  here the visualization carries its state. The optional performance monitor only
  brackets the calls with section timers, which are not modelled.
\<close>

record BaseVisualization =
  scene :: "Object3D list"
  objects :: "Object3D list"
  materials :: "nat list"
  geometries :: "nat list"
  uniforms :: Uniforms
  detectedInstruments :: "(string \<times> real) list"
  objectPools :: "(string \<times> nat Pool) list"
  lastUpdateTime :: real
  visFrameCount :: int
  isVisible :: bool
  distanceToCamera :: real
  visibilityThreshold :: real
  visUpdateFrequency :: int
  qualityScale :: real
  visDrawCalls :: int
  shaderComplexity :: ShaderComplexity
  useFrustumCulling :: bool
  frustumCamera :: "Camera option"
  boundingSpheres :: "nat list"
  textureCache :: "(string \<times> Resource) list"
  materialCache :: "(string \<times> Resource) list"
  geometryCache :: "(string \<times> Resource) list"
  lastCleanupTime :: real
  memoryCleanupInterval :: real
  lodManager :: "LodManager option"
  disposed :: "nat list"

datatype 'a Outcome = Skipped 'a | Updated 'a

definition distanceToOrigin :: "Camera \<Rightarrow> real" where
  "distanceToOrigin c = (case position c of (x, y, z) \<Rightarrow> sqrt (x ^ 2 + y ^ 2 + z ^ 2))"

definition complexityTier :: "real \<Rightarrow> ShaderComplexity" where
  "complexityTier q =
    (if q < 0.4 then LowComplexity else if q < 0.8 then MediumComplexity else HighComplexity)"

text \<open>\<open>!r.userData.lastUsed || time - r.userData.lastUsed > 60\<close>\<close>

definition unused :: "real \<Rightarrow> Resource \<Rightarrow> bool" where
  "unused t r = (case lastUsed r of None \<Rightarrow> True | Some u \<Rightarrow> u = 0 \<or> t - u > 60)"

definition sweep :: "real \<Rightarrow> (string \<times> Resource) list \<Rightarrow> (string \<times> Resource) list" where
  "sweep t cache = filter (\<lambda>(k, r). \<not> unused t r) cache"

definition swept :: "real \<Rightarrow> (string \<times> Resource) list \<Rightarrow> nat list" where
  "swept t cache = map (\<lambda>(k, r). resId r) (filter (\<lambda>(k, r). unused t r) cache)"

definition cleanupUnusedResources :: "BaseVisualization \<Rightarrow> BaseVisualization" where
  "cleanupUnusedResources s =
    (let t = timeValue (uniforms s)
     in s\<lparr>textureCache := sweep t (textureCache s),
          materialCache := sweep t (materialCache s),
          geometryCache := sweep t (geometryCache s),
          disposed := disposed s @ swept t (textureCache s) @ swept t (materialCache s)
                        @ swept t (geometryCache s)\<rparr>)"

text \<open>
  The gate of \<open>update\<close>: the LOD manager's answer (with the resync of the quality scale,
  which forces an update), or the local frame count modulo \<open>updateFrequency\<close>.
\<close>

definition gate :: "real \<Rightarrow> BaseVisualization \<Rightarrow> error + (bool \<times> BaseVisualization)" where
  "gate importanceFactor s =
    (case lodManager s of
       Some l \<Rightarrow>
        (case shouldUpdate importanceFactor (distanceToCamera s) l of
           Inl e \<Rightarrow> Inl e
         | Inr (su, l1) \<Rightarrow>
            (case getEffectComplexity l1 of
               None \<Rightarrow> Inl TypeError
             | Some newQualityScale \<Rightarrow>
                 if newQualityScale \<noteq> qualityScale s
                 then Inr (True,
                        s\<lparr>lodManager := Some l1, qualityScale := newQualityScale,
                          uniforms := (uniforms s)\<lparr>qualityScaleValue := newQualityScale\<rparr>,
                          shaderComplexity := complexityTier newQualityScale\<rparr>)
                 else Inr (su, s\<lparr>lodManager := Some l1\<rparr>)))
     | None \<Rightarrow>
         Inr (\<not> (visUpdateFrequency s = 0 \<or> visFrameCount s mod visUpdateFrequency s \<noteq> 0), s))"

text \<open>
  \<open>update\<close>, with the reading of the clock and the style's \<open>updateVisualization\<close> as
  arguments. The result says whether the style's method was invoked.
\<close>

definition update ::
  "(AudioAnalysisData \<Rightarrow> BaseVisualization \<Rightarrow> BaseVisualization) \<Rightarrow> real \<Rightarrow> AudioAnalysisData
   \<Rightarrow> (string \<times> real) list \<Rightarrow> Camera option \<Rightarrow> BaseVisualization
   \<Rightarrow> error + BaseVisualization Outcome" where
  "update updateVisualization elapsed audioData instruments camera s =
    (let s1 = s\<lparr>visFrameCount := visFrameCount s + 1,
                uniforms := (uniforms s)\<lparr>timeValue := elapsed,
                                          beatValue := (if detected (beat audioData) then 1 else 0),
                                          volumeValue := volume audioData\<rparr>,
                detectedInstruments := instruments\<rparr>;
         s2 = (case camera of
                 Some c \<Rightarrow>
                   s1\<lparr>distanceToCamera := distanceToOrigin c,
                      isVisible := (distanceToOrigin c < visibilityThreshold s1),
                      frustumCamera := (if useFrustumCulling s1 then Some c
                                        else frustumCamera s1)\<rparr>
               | None \<Rightarrow> s1\<lparr>isVisible := True, distanceToCamera := 0\<rparr>);
         importanceFactor = (if detected (beat audioData) then 0.9
                             else if volume audioData > 0.7 then 0.8 else 0.5)
     in case gate importanceFactor s2 of
          Inl e \<Rightarrow> Inl e
        | Inr (gateOpen, s3) \<Rightarrow>
           (let shouldUpd = (if detected (beat audioData) \<and> confidence (beat audioData) > 0.5
                             then True else gateOpen);
                s4 = (if elapsed - lastCleanupTime s3 > memoryCleanupInterval s3 / 1000
                      then (cleanupUnusedResources s3)\<lparr>lastCleanupTime := elapsed\<rparr>
                      else s3)
            in if \<not> isVisible s4 \<or> \<not> shouldUpd then Inr (Skipped s4)
               else Inr (Updated (updateVisualization audioData
                                   (s4\<lparr>lastUpdateTime := elapsed, visDrawCalls := 0\<rparr>)))))"

text \<open>The loop of \<open>clearScene\<close> that removes the first child until none is left.\<close>

function removeChildren :: "Object3D list \<Rightarrow> Object3D list" where
  "removeChildren cs =
    (if length cs > 0 then removeChildren (remove1 (cs ! 0) cs) else cs)"
  by pat_completeness auto
termination
  by (relation "measure length") (auto simp: length_remove1)

declare removeChildren.simps [simp del]

definition clearScene :: "bool \<Rightarrow> BaseVisualization \<Rightarrow> BaseVisualization" where
  "clearScene removeAllChildren s =
    (let s1 = s\<lparr>scene := foldl (\<lambda>cs obj. remove1 obj cs) (scene s) (objects s),
                objects := []\<rparr>
     in if removeAllChildren then s1\<lparr>scene := removeChildren (scene s1)\<rparr> else s1)"

text \<open>
  \<open>dispose\<close> calls \<open>dispose()\<close> on every tracked material and geometry and on every cached
  resource, clears each pool and then the map of pools (here the map is emptied), empties
  the caches and the tracking lists, and clears the scene.
\<close>

definition dispose :: "BaseVisualization \<Rightarrow> BaseVisualization" where
  "dispose s =
    (let s1 = s\<lparr>disposed := disposed s @ materials s @ geometries s
                    @ map (\<lambda>(k, r). resId r) (textureCache s)
                    @ map (\<lambda>(k, r). resId r) (materialCache s)
                    @ map (\<lambda>(k, r). resId r) (geometryCache s),
                textureCache := [], materialCache := [], geometryCache := [],
                materials := [], geometries := [], objectPools := [],
                boundingSpheres := []\<rparr>
     in clearScene True s1)"

text \<open>Whether this frame's camera, if any, is closer than the visibility threshold.\<close>

definition visibleFrom :: "Camera option \<Rightarrow> BaseVisualization \<Rightarrow> bool" where
  "visibleFrom camera s =
    (case camera of None \<Rightarrow> True | Some c \<Rightarrow> distanceToOrigin c < visibilityThreshold s)"

definition lodUsable :: "BaseVisualization \<Rightarrow> bool" where
  "lodUsable s =
    (case lodManager s of None \<Rightarrow> True | Some l \<Rightarrow> getCurrentLodLevel l \<noteq> None)"

section \<open>Concrete states\<close>

definition exampleRenderer :: Renderer where
  "exampleRenderer =
    \<lparr>devicePixelRatio = 2, shadowMapEnabled = False, shadowMapType = PCFShadowMap,
     pixelRatio = 2, anisotropyCapped = False\<rparr>"

definition exampleLod :: "int \<Rightarrow> LodManager" where
  "exampleLod n =
    \<lparr>levels = DEFAULT_LOD_LEVELS, currentLevel = n, renderer = exampleRenderer,
     frameCounter = 0, dynamicUpdateFrequency = True, distanceScalingEnabled = True,
     importanceBasedLod = True, importantObjects = {}, adaptiveDistance = 50\<rparr>"

text \<open>A frame that ends at \<open>t\<close> with the heap at 900 of 1000 MB.\<close>

definition constrainedEnv :: "real \<Rightarrow> FrameEnv" where
  "constrainedEnv t =
    \<lparr>now = t, checkNow = t, memory = Some (900 * (1024 * 1024), 1000 * (1024 * 1024)),
     renderInfo = None\<rparr>"

text \<open>A monitor past its warm-up: 150 frames done, the last one ended at 2990 ms.\<close>

definition warmMonitor :: PerformanceMonitor where
  "warmMonitor =
    (PerformanceMonitor_new defaultSettings)
      \<lparr>frameCount := 150, lastFrameTime := 2990, frameStartTime := 3000\<rparr>"



definition warmSystem :: System where
  "warmSystem = \<lparr>monitor = warmMonitor, lod = exampleLod 4\<rparr>"

text \<open>A pool of numbered objects, as \<open>new Pool(factory)\<close> makes it.\<close>

definition freshPool :: "nat Pool" where
  "freshPool = Pool_new (\<lambda>n. n) 0 0 0 1024"

text \<open>The same pool with object 0 handed out and not yet released.\<close>

definition busyPool :: "nat Pool" where
  "busyPool = snd (Pool_get (\<lambda>n. n) freshPool)"

text \<open>The same pool as 49 rounds of \<open>get\<close> and \<open>release\<close> leave it.\<close>

definition roundsPool :: "nat Pool" where
  "roundsPool =
    freshPool\<lparr>pool := [0], creationCount := 1, usageHistory := replicate 49 0,
               poolHits := 48, poolMisses := 1, maxUsageCount := 1\<rparr>"

text \<open>
  A visualization on the lowest level of the default table, with one tracked mesh in
  the scene next to a child it does not track, and one entry in each cache.
\<close>

definition exampleVis :: BaseVisualization where
  "exampleVis =
    \<lparr>scene = [Object3D 1 [Object3D 2 []], Object3D 3 []],
     objects = [Object3D 1 [Object3D 2 []]],
     materials = [10], geometries = [11],
     uniforms = \<lparr>timeValue = 0, beatValue = 0, volumeValue = 0, qualityScaleValue = 0.1\<rparr>,
     detectedInstruments = [], objectPools = [(''particles'', freshPool)],
     lastUpdateTime = 0, visFrameCount = 0, isVisible = True, distanceToCamera = 0,
     visibilityThreshold = 100, visUpdateFrequency = 5, qualityScale = 0.1,
     visDrawCalls = 0, shaderComplexity = LowComplexity, useFrustumCulling = True,
     frustumCamera = None, boundingSpheres = [1],
     textureCache = [(''noise'', \<lparr>resId = 20, lastUsed = None\<rparr>)],
     materialCache = [(''glow'', \<lparr>resId = 21, lastUsed = Some 1\<rparr>)],
     geometryCache = [(''quad'', \<lparr>resId = 22, lastUsed = Some 2\<rparr>)],
     lastCleanupTime = 0, memoryCleanupInterval = 30000,
     lodManager = Some (exampleLod 0), disposed = []\<rparr>"

definition beatFrame :: AudioAnalysisData where
  "beatFrame =
    \<lparr>frequencyData = [], timeData = [], volume = 0.4,
     beat = \<lparr>detected = True, confidence = 0.9, bpm = 120\<rparr>,
     energyDistribution = (0.2, 0.2, 0.2)\<rparr>"

definition quietFrame :: AudioAnalysisData where
  "quietFrame =
    \<lparr>frequencyData = [], timeData = [], volume = 0.4,
     beat = \<lparr>detected = False, confidence = 0, bpm = 120\<rparr>,
     energyDistribution = (0.2, 0.2, 0.2)\<rparr>"

definition weakBeatFrame :: AudioAnalysisData where
  "weakBeatFrame =
    \<lparr>frequencyData = [], timeData = [], volume = 0.4,
     beat = \<lparr>detected = True, confidence = 0.3, bpm = 120\<rparr>,
     energyDistribution = (0.2, 0.2, 0.2)\<rparr>"

section \<open>Facts about the phases of a frame\<close>

lemma checkQualityAdjustment_frame:
  "frameBudgetUsage (metrics (fst (checkQualityAdjustment t m))) = frameBudgetUsage (metrics m)"
  "hasFrameDrops (metrics (fst (checkQualityAdjustment t m))) = hasFrameDrops (metrics m)"
  "currentQualityLevel (metrics (fst (checkQualityAdjustment t m))) = currentQualityLevel (metrics m)"
  "fpsStability (metrics (fst (checkQualityAdjustment t m))) = fpsStability (metrics m)"
  "fps (metrics (fst (checkQualityAdjustment t m))) = fps (metrics m)"
  "fpsHistory (fst (checkQualityAdjustment t m)) = fpsHistory m"
  "settings (fst (checkQualityAdjustment t m)) = settings m"
  "frameCount (fst (checkQualityAdjustment t m)) = frameCount m"
  by (simp_all add: checkQualityAdjustment_def applyRules_def Let_def split: prod.splits)

lemma settings_phases:
  "settings (detectGc env m) = settings m"
  "settings (updateFrameStats ft m) = settings m"
  "settings (updateStability m) = settings m"
  "settings (updateMemory env m) = settings m"
  "settings (updateDrawCalls env m) = settings m"
  "settings (updateBudget ft m) = settings m"
  "settings (beginFrame t0 info m) = settings m"
  by (simp_all add: detectGc_def updateFrameStats_def updateStability_def updateMemory_def
       updateDrawCalls_def updateBudget_def beginFrame_def Let_def
       split: option.splits prod.splits)

lemma settings_frameMetrics: "settings (frameMetrics env m) = settings m"
  by (simp add: frameMetrics_def Let_def settings_phases)

lemma currentQualityLevel_phases:
  "currentQualityLevel (metrics (detectGc env m)) = currentQualityLevel (metrics m)"
  "currentQualityLevel (metrics (updateFrameStats ft m)) = currentQualityLevel (metrics m)"
  "currentQualityLevel (metrics (updateStability m)) = currentQualityLevel (metrics m)"
  "currentQualityLevel (metrics (updateMemory env m)) = currentQualityLevel (metrics m)"
  "currentQualityLevel (metrics (updateDrawCalls env m)) = currentQualityLevel (metrics m)"
  "currentQualityLevel (metrics (updateBudget ft m)) = currentQualityLevel (metrics m)"
  "currentQualityLevel (metrics (beginFrame t0 info m)) = currentQualityLevel (metrics m)"
  by (simp_all add: detectGc_def updateFrameStats_def updateStability_def updateMemory_def
       updateDrawCalls_def updateBudget_def beginFrame_def Let_def
       split: option.splits prod.splits)

lemma targetQualityLevel_phases:
  "targetQualityLevel (metrics (detectGc env m)) = targetQualityLevel (metrics m)"
  "targetQualityLevel (metrics (updateFrameStats ft m)) = targetQualityLevel (metrics m)"
  "targetQualityLevel (metrics (updateStability m)) = targetQualityLevel (metrics m)"
  "targetQualityLevel (metrics (updateMemory env m)) = targetQualityLevel (metrics m)"
  "targetQualityLevel (metrics (updateDrawCalls env m)) = targetQualityLevel (metrics m)"
  "targetQualityLevel (metrics (updateBudget ft m)) = targetQualityLevel (metrics m)"
  "targetQualityLevel (metrics (beginFrame t0 info m)) = targetQualityLevel (metrics m)"
  by (simp_all add: detectGc_def updateFrameStats_def updateStability_def updateMemory_def
       updateDrawCalls_def updateBudget_def beginFrame_def Let_def
       split: option.splits prod.splits)

lemma levels_frameMetrics:
  "currentQualityLevel (metrics (frameMetrics env m)) = currentQualityLevel (metrics m)"
  "targetQualityLevel (metrics (frameMetrics env m)) = targetQualityLevel (metrics m)"
  by (simp_all add: frameMetrics_def Let_def currentQualityLevel_phases targetQualityLevel_phases)

lemma updateBudget_usage:
  "frameBudgetUsage (metrics (updateBudget ft m)) = min 1 (ft / (1000 / targetFps (settings m)))"
  by (simp add: updateBudget_def Let_def)



lemma detectGc_fields:
  "fpsHistory (detectGc env m) = fpsHistory m"
  "fps (metrics (detectGc env m)) = fps (metrics m)"
  "fpsStability (metrics (detectGc env m)) = fpsStability (metrics m)"
  "frameCount (detectGc env m) = frameCount m + 1"
  "lastAdjustmentTime (detectGc env m) = lastAdjustmentTime m"
  "lastFrameTime (detectGc env m) = now env"
  "historySize (detectGc env m) = historySize m"
  "gcDetectionThreshold (detectGc env m) = gcDetectionThreshold m"
  "isMemoryConstrained (metrics (detectGc env m)) = isMemoryConstrained (metrics m)"
  "gcTime (metrics (detectGc env m))
   = (if lastFrameTime m > 0 \<and> now env - lastFrameTime m > gcDetectionThreshold m
      then now env - lastFrameTime m else gcTime (metrics m) * 0.9)"
  by (simp_all add: detectGc_def Let_def)

lemma updateFrameStats_fields:
  "fpsHistory (updateFrameStats ft m)
   = pushHistory (historySize m) (if fps (metrics m) = 0 then 60 else fps (metrics m)) (fpsHistory m)"
  "fps (metrics (updateFrameStats ft m)) = (if fps (metrics m) = 0 then 60 else fps (metrics m))"
  "averageFps (metrics (updateFrameStats ft m)) = mean (fpsHistory (updateFrameStats ft m))"
  "fpsStability (metrics (updateFrameStats ft m)) = fpsStability (metrics m)"
  "frameCount (updateFrameStats ft m) = frameCount m"
  "lastAdjustmentTime (updateFrameStats ft m) = lastAdjustmentTime m"
  "lastFrameTime (updateFrameStats ft m) = lastFrameTime m"
  "historySize (updateFrameStats ft m) = historySize m"
  "gcDetectionThreshold (updateFrameStats ft m) = gcDetectionThreshold m"
  "isMemoryConstrained (metrics (updateFrameStats ft m)) = isMemoryConstrained (metrics m)"
  "gcTime (metrics (updateFrameStats ft m)) = gcTime (metrics m)"
  by (simp_all add: updateFrameStats_def Let_def mean_def)

lemma stabilityOf_mean: "stabilityOf h (mean h) = stabilityScore h"
  by (simp add: stabilityOf_def stabilityScore_def stddev_def Let_def)

lemma updateStability_fields:
  "fpsHistory (updateStability m) = fpsHistory m"
  "fps (metrics (updateStability m)) = fps (metrics m)"
  "averageFps (metrics (updateStability m)) = averageFps (metrics m)"
  "fpsStability (metrics (updateStability m))
   = (if 5 < length (fpsHistory m) then stabilityOf (fpsHistory m) (averageFps (metrics m))
      else fpsStability (metrics m))"
  "frameCount (updateStability m) = frameCount m"
  "lastAdjustmentTime (updateStability m) = lastAdjustmentTime m"
  "lastFrameTime (updateStability m) = lastFrameTime m"
  "historySize (updateStability m) = historySize m"
  "gcDetectionThreshold (updateStability m) = gcDetectionThreshold m"
  "isMemoryConstrained (metrics (updateStability m)) = isMemoryConstrained (metrics m)"
  "gcTime (metrics (updateStability m)) = gcTime (metrics m)"
  by (simp_all add: updateStability_def)

lemma updateMemory_fields:
  "fpsHistory (updateMemory env m) = fpsHistory m"
  "fps (metrics (updateMemory env m)) = fps (metrics m)"
  "averageFps (metrics (updateMemory env m)) = averageFps (metrics m)"
  "fpsStability (metrics (updateMemory env m)) = fpsStability (metrics m)"
  "frameCount (updateMemory env m) = frameCount m"
  "lastAdjustmentTime (updateMemory env m) = lastAdjustmentTime m"
  "lastFrameTime (updateMemory env m) = lastFrameTime m"
  "historySize (updateMemory env m) = historySize m"
  "gcDetectionThreshold (updateMemory env m) = gcDetectionThreshold m"
  "gcTime (metrics (updateMemory env m)) = gcTime (metrics m)"
  by (simp_all add: updateMemory_def Let_def split: option.splits prod.splits)

lemma updateMemory_isMemoryConstrained:
  "isMemoryConstrained (metrics (updateMemory env m))
   = (case memory env of
        None \<Rightarrow> isMemoryConstrained (metrics m)
      | Some (used, limit) \<Rightarrow> used / (1024 * 1024) > limit / (1024 * 1024) * 0.8)"
  by (auto simp: updateMemory_def Let_def mult.commute split: option.splits prod.splits)

lemma updateDrawCalls_fields:
  "fpsHistory (updateDrawCalls env m) = fpsHistory m"
  "fps (metrics (updateDrawCalls env m)) = fps (metrics m)"
  "averageFps (metrics (updateDrawCalls env m)) = averageFps (metrics m)"
  "fpsStability (metrics (updateDrawCalls env m)) = fpsStability (metrics m)"
  "frameCount (updateDrawCalls env m) = frameCount m"
  "lastAdjustmentTime (updateDrawCalls env m) = lastAdjustmentTime m"
  "lastFrameTime (updateDrawCalls env m) = lastFrameTime m"
  "historySize (updateDrawCalls env m) = historySize m"
  "gcDetectionThreshold (updateDrawCalls env m) = gcDetectionThreshold m"
  "isMemoryConstrained (metrics (updateDrawCalls env m)) = isMemoryConstrained (metrics m)"
  "gcTime (metrics (updateDrawCalls env m)) = gcTime (metrics m)"
  by (simp_all add: updateDrawCalls_def split: option.splits prod.splits)

lemma updateBudget_fields:
  "fpsHistory (updateBudget ft m) = fpsHistory m"
  "fps (metrics (updateBudget ft m)) = fps (metrics m)"
  "averageFps (metrics (updateBudget ft m)) = averageFps (metrics m)"
  "fpsStability (metrics (updateBudget ft m)) = fpsStability (metrics m)"
  "frameCount (updateBudget ft m) = frameCount m"
  "lastAdjustmentTime (updateBudget ft m) = lastAdjustmentTime m"
  "lastFrameTime (updateBudget ft m) = lastFrameTime m"
  "historySize (updateBudget ft m) = historySize m"
  "gcDetectionThreshold (updateBudget ft m) = gcDetectionThreshold m"
  "isMemoryConstrained (metrics (updateBudget ft m)) = isMemoryConstrained (metrics m)"
  "gcTime (metrics (updateBudget ft m)) = gcTime (metrics m)"
  by (simp_all add: updateBudget_def Let_def)

lemma updateBudget_isPerformanceCritical:
  "isPerformanceCritical (metrics (updateBudget ft m))
   = (averageFps (metrics m) < criticalFps (settings m)
      \<or> frameBudgetUsage (metrics (updateBudget ft m)) > 0.95)"
  by (auto simp: updateBudget_def Let_def min_def)

lemmas phase_fields = detectGc_fields updateFrameStats_fields updateStability_fields
  updateMemory_fields updateDrawCalls_fields updateBudget_fields

lemma frameMetrics_fpsHistory:
  "fpsHistory (frameMetrics env m)
   = pushHistory (historySize m) (if fps (metrics m) = 0 then 60 else fps (metrics m)) (fpsHistory m)"
  by (simp add: frameMetrics_def Let_def phase_fields)

lemma frameMetrics_fps:
  "fps (metrics (frameMetrics env m)) = (if fps (metrics m) = 0 then 60 else fps (metrics m))"
  by (simp add: frameMetrics_def Let_def phase_fields)

lemma frameMetrics_averageFps:
  "averageFps (metrics (frameMetrics env m)) = mean (fpsHistory (frameMetrics env m))"
  by (simp add: frameMetrics_def Let_def phase_fields)

lemma frameMetrics_fpsStability:
  "fpsStability (metrics (frameMetrics env m))
   = (if 5 < length (fpsHistory (frameMetrics env m))
      then stabilityScore (fpsHistory (frameMetrics env m))
      else fpsStability (metrics m))"
  by (simp add: frameMetrics_def Let_def phase_fields stabilityOf_mean)

lemma frameMetrics_misc:
  "frameCount (frameMetrics env m) = frameCount m + 1"
  "lastAdjustmentTime (frameMetrics env m) = lastAdjustmentTime m"
  "lastFrameTime (frameMetrics env m) = now env"
  "historySize (frameMetrics env m) = historySize m"
  "gcDetectionThreshold (frameMetrics env m) = gcDetectionThreshold m"
  by (simp_all add: frameMetrics_def Let_def phase_fields)

lemma frameMetrics_gcTime:
  "gcTime (metrics (frameMetrics env m))
   = (if lastFrameTime m > 0 \<and> now env - lastFrameTime m > gcDetectionThreshold m
      then now env - lastFrameTime m else gcTime (metrics m) * 0.9)"
  by (simp add: frameMetrics_def Let_def phase_fields)

lemma frameMetrics_isMemoryConstrained:
  "isMemoryConstrained (metrics (frameMetrics env m))
   = (case memory env of
        None \<Rightarrow> isMemoryConstrained (metrics m)
      | Some (used, limit) \<Rightarrow> used / (1024 * 1024) > limit / (1024 * 1024) * 0.8)"
  by (simp add: frameMetrics_def Let_def phase_fields updateMemory_isMemoryConstrained
      split: option.splits)

lemma frameMetrics_budget:
  "frameBudgetUsage (metrics (frameMetrics env m))
   = min 1 ((now env - frameStartTime m) / (1000 / targetFps (settings m)))"
  by (simp add: frameMetrics_def Let_def updateBudget_usage settings_phases)

lemma frameMetrics_isPerformanceCritical:
  "isPerformanceCritical (metrics (frameMetrics env m))
   = (mean (fpsHistory (frameMetrics env m)) < criticalFps (settings m)
      \<or> frameBudgetUsage (metrics (frameMetrics env m)) > 0.95)"
  unfolding frameMetrics_def Let_def updateBudget_isPerformanceCritical
  by (simp only: phase_fields settings_phases)

section \<open>Windows of samples\<close>

lemma list_all_pushHistory:
  assumes "list_all P xs" and "P x"
  shows "list_all P (pushHistory n x xs)"
proof -
  from assms have a: "list_all P (xs @ [x])" by simp
  then have "list_all P (tl (xs @ [x]))"
    by (cases "xs @ [x]") simp_all
  with a show ?thesis by (simp add: pushHistory_def Let_def)
qed

lemma sum_list_const:
  "list_all (\<lambda>x. x = c) xs \<Longrightarrow> sum_list xs = real (length xs) * (c::real)"
  by (induction xs) (simp_all add: algebra_simps)


lemma mean_const:
  assumes "list_all (\<lambda>x. x = c) xs" and "xs \<noteq> []"
  shows "mean xs = c"
  using assms by (simp add: mean_def sum_list_const)


lemma deviations_const:
  "list_all (\<lambda>x. x = c) xs \<Longrightarrow> sum_list (map (\<lambda>x. (x - c) ^ 2) xs) = (0::real)"
  by (induction xs) simp_all

lemma stabilityScore_const:
  assumes "list_all (\<lambda>x. x = c) xs" and "xs \<noteq> []"
  shows "stabilityScore xs = 1"
  using assms by (simp add: stabilityScore_def stddev_def mean_const deviations_const)





section \<open>Facts about the adjustment rules\<close>

lemma adjustmentRules_cases:
  "adjustmentRules m = (max 0 (currentQualityLevel (metrics m) - 1), True)
   \<or> (adjustmentRules m = (currentQualityLevel (metrics m) + 1, True)
        \<and> currentQualityLevel (metrics m) < qualityLevels (settings m) - 1)
   \<or> adjustmentRules m = (currentQualityLevel (metrics m), False)"
  by (simp add: adjustmentRules_def Let_def)

lemma applyRules_fired:
  assumes "snd (applyRules t m) = Some q"
  shows "targetQualityLevel (metrics (fst (applyRules t m))) = q
         \<and> q \<noteq> targetQualityLevel (metrics m)
         \<and> lastAdjustmentTime (fst (applyRules t m)) = t
         \<and> gcRule m (adjustmentRules m) = (q, True)"
  using assms
  by (auto simp: applyRules_def Let_def split: prod.splits if_splits)

lemma applyRules_quiet:
  assumes "snd (applyRules t m) = None"
  shows "fst (applyRules t m) = m"
  using assms
  by (auto simp: applyRules_def Let_def split: prod.splits if_splits)

lemma gcRule_adjustmentRules_value:
  assumes "gcRule m (adjustmentRules m) = (q, True)"
  shows "q \<in> {currentQualityLevel (metrics m) + 1, max 0 (currentQualityLevel (metrics m)),
              max 0 (currentQualityLevel (metrics m) - 1), max 0 (currentQualityLevel (metrics m) - 2)}"
  using assms adjustmentRules_cases [of m]
  by (auto simp: gcRule_def split: if_splits)

lemma gcRule_adjustmentRules_range:
  assumes "gcRule m (adjustmentRules m) = (q, True)"
    and "0 \<le> currentQualityLevel (metrics m)"
    and "currentQualityLevel (metrics m) \<le> qualityLevels (settings m) - 1"
  shows "0 \<le> q \<and> q \<le> qualityLevels (settings m) - 1"
  using assms adjustmentRules_cases [of m]
  by (auto simp: gcRule_def split: if_splits)

lemma checkQualityAdjustment_fired:
  assumes "snd (checkQualityAdjustment t m) = Some q"
  shows "targetQualityLevel (metrics (fst (checkQualityAdjustment t m))) = q
         \<and> q \<noteq> targetQualityLevel (metrics m)
         \<and> lastAdjustmentTime (fst (checkQualityAdjustment t m)) = t
         \<and> gcRule m (adjustmentRules m) = (q, True)
         \<and> reachesRules t m"
  using assms applyRules_fired [of t m q]
  by (auto simp: checkQualityAdjustment_def reachesRules_def split: if_splits)

lemma checkQualityAdjustment_quiet:
  assumes "snd (checkQualityAdjustment t m) = None"
  shows "fst (checkQualityAdjustment t m) = m"
  using assms applyRules_quiet [of t m]
  by (auto simp: checkQualityAdjustment_def split: if_splits)

lemma phases_setTarget:
  "detectGc env (m\<lparr>metrics := (metrics m)\<lparr>targetQualityLevel := x\<rparr>\<rparr>)
   = (detectGc env m)\<lparr>metrics := (metrics (detectGc env m))\<lparr>targetQualityLevel := x\<rparr>\<rparr>"
  "updateFrameStats ft (m\<lparr>metrics := (metrics m)\<lparr>targetQualityLevel := x\<rparr>\<rparr>)
   = (updateFrameStats ft m)\<lparr>metrics := (metrics (updateFrameStats ft m))\<lparr>targetQualityLevel := x\<rparr>\<rparr>"
  "updateStability (m\<lparr>metrics := (metrics m)\<lparr>targetQualityLevel := x\<rparr>\<rparr>)
   = (updateStability m)\<lparr>metrics := (metrics (updateStability m))\<lparr>targetQualityLevel := x\<rparr>\<rparr>"
  "updateMemory env (m\<lparr>metrics := (metrics m)\<lparr>targetQualityLevel := x\<rparr>\<rparr>)
   = (updateMemory env m)\<lparr>metrics := (metrics (updateMemory env m))\<lparr>targetQualityLevel := x\<rparr>\<rparr>"
  "updateDrawCalls env (m\<lparr>metrics := (metrics m)\<lparr>targetQualityLevel := x\<rparr>\<rparr>)
   = (updateDrawCalls env m)\<lparr>metrics := (metrics (updateDrawCalls env m))\<lparr>targetQualityLevel := x\<rparr>\<rparr>"
  "updateBudget ft (m\<lparr>metrics := (metrics m)\<lparr>targetQualityLevel := x\<rparr>\<rparr>)
   = (updateBudget ft m)\<lparr>metrics := (metrics (updateBudget ft m))\<lparr>targetQualityLevel := x\<rparr>\<rparr>"
  by (simp_all add: detectGc_def updateFrameStats_def updateStability_def updateMemory_def
       updateDrawCalls_def updateBudget_def Let_def
       split: option.splits prod.splits)

lemma frameStartTime_setTarget:
  "frameStartTime (m\<lparr>metrics := x\<rparr>) = frameStartTime m"
  by simp

lemma frameMetrics_setTarget:
  "frameMetrics env (m\<lparr>metrics := (metrics m)\<lparr>targetQualityLevel := x\<rparr>\<rparr>)
   = (frameMetrics env m)\<lparr>metrics := (metrics (frameMetrics env m))\<lparr>targetQualityLevel := x\<rparr>\<rparr>"
  unfolding frameMetrics_def Let_def frameStartTime_setTarget phases_setTarget ..

lemma rules_setTarget:
  "gcRule (m\<lparr>metrics := (metrics m)\<lparr>targetQualityLevel := x\<rparr>\<rparr>)
      (adjustmentRules (m\<lparr>metrics := (metrics m)\<lparr>targetQualityLevel := x\<rparr>\<rparr>))
   = gcRule m (adjustmentRules m)"
  by (simp add: gcRule_def adjustmentRules_def Let_def)

lemma check_setTarget:
  assumes "snd (checkQualityAdjustment t m) = Some q"
  shows "snd (checkQualityAdjustment t (m\<lparr>metrics := (metrics m)\<lparr>targetQualityLevel := x\<rparr>\<rparr>))
         = (if x = q then None else Some q)"
proof -
  from checkQualityAdjustment_fired [OF assms]
  have g: "gcRule m (adjustmentRules m) = (q, True)" and r: "reachesRules t m"
    by simp_all
  show ?thesis
    using r
    by (simp add: checkQualityAdjustment_def reachesRules_def applyRules_def rules_setTarget g)
qed

lemmas endFrame_unfold = endFrame_def frameMetrics_def Let_def detectGc_def updateFrameStats_def
  updateStability_def updateMemory_def updateDrawCalls_def updateBudget_def
  checkQualityAdjustment_def applyRules_def gcRule_def adjustmentRules_def pushHistory_def

section \<open>Steps of the wired system\<close>

lemma step_monitor_cases:
  assumes "step x s = Inr s1"
  shows "(\<exists>t info. x = BeginFrame t info \<and> monitor s1 = beginFrame t info (monitor s))
       \<or> (\<exists>env. x = EndFrame env \<and> monitor s1 = fst (endFrame env (monitor s)))
       \<or> (\<exists>n. x = MonitorSetQuality n
              \<and> monitor s1 = fst (PerformanceMonitor_setQualityLevel n (monitor s)))
       \<or> ((\<exists>n. x = LodSetQuality n) \<or> x = LodMemoryPressure) \<and> monitor s1 = monitor s"
  using assms
  by (cases x) (auto simp: withMonitor_def split: sum.splits)

section \<open>Frame budget\<close>



section \<open>Setting the LOD level\<close>

lemma setq_noop:
  "max 0 (min (int (length (levels s)) - 1) n) = currentLevel s \<Longrightarrow>
       LodManager_setQualityLevel n s = Inr (s, None)"
  by (simp add: LodManager_setQualityLevel_def Let_def)

lemma setq_result:
  assumes "LodManager_setQualityLevel n s = Inr (s1, cb1)"
  shows "levels s1 = levels s \<and> currentLevel s1 = max 0 (min (int (length (levels s)) - 1) n)"
proof (cases "max 0 (min (int (length (levels s)) - 1) n) = currentLevel s")
  case True
  with assms setq_noop [OF True] show ?thesis by simp
next
  case False
  with assms show ?thesis
    by (auto simp: LodManager_setQualityLevel_def Let_def split: option.splits)
qed

lemma setq_total:
  assumes "levels s \<noteq> []"
  shows "\<exists>s1 cb1. LodManager_setQualityLevel n s = Inr (s1, cb1)"
proof (cases "max 0 (min (int (length (levels s)) - 1) n) = currentLevel s")
  case True
  from setq_noop [OF True] show ?thesis by blast
next
  case False
  from assms have "0 < length (levels s)" by simp
  then have "getCurrentLodLevel (s\<lparr>currentLevel := max 0 (min (int (length (levels s)) - 1) n)\<rparr>) \<noteq> None"
    by (simp add: getCurrentLodLevel_def)
  with False show ?thesis
    by (auto simp: LodManager_setQualityLevel_def Let_def split: option.splits)
qed

text \<open>
  C5. A second \<open>LodManager.setQualityLevel\<close> call with the same argument changes nothing
  and does not invoke \<open>onLodChange\<close>, so two calls in a row invoke it at most once. A call
  whose clamped argument is the current level returns the manager as it was, without
  the callback. On a non-empty table the call does not raise.
\<close>

theorem LodManager_setQualityLevel_idempotent:
  "(\<forall>s1 cb1. LodManager_setQualityLevel n s = Inr (s1, cb1) \<longrightarrow>
       LodManager_setQualityLevel n s1 = Inr (s1, None))
   \<and> (max 0 (min (int (length (levels s)) - 1) n) = currentLevel s \<longrightarrow>
       LodManager_setQualityLevel n s = Inr (s, None))
   \<and> (levels s \<noteq> [] \<longrightarrow> (\<exists>s1 cb1. LodManager_setQualityLevel n s = Inr (s1, cb1)))"
proof -
  have "LodManager_setQualityLevel n s1 = Inr (s1, None)"
    if "LodManager_setQualityLevel n s = Inr (s1, cb1)" for s1 cb1
    using setq_result [OF that] by (intro setq_noop) simp
  with setq_noop [of s n] setq_total [of s n] show ?thesis by blast
qed

theorem LodManager_setQualityLevel_idempotent_witness:
  "LodManager_setQualityLevel 7 (exampleLod 2)
     = Inr ((exampleLod 2)\<lparr>currentLevel := 4,
              renderer := applyRendererSettings (DEFAULT_LOD_LEVELS ! 4) exampleRenderer\<rparr>,
            Some (DEFAULT_LOD_LEVELS ! 4))
   \<and> LodManager_setQualityLevel 7
        ((exampleLod 2)\<lparr>currentLevel := 4,
              renderer := applyRendererSettings (DEFAULT_LOD_LEVELS ! 4) exampleRenderer\<rparr>)
     = Inr ((exampleLod 2)\<lparr>currentLevel := 4,
              renderer := applyRendererSettings (DEFAULT_LOD_LEVELS ! 4) exampleRenderer\<rparr>, None)
   \<and> LodManager_setQualityLevel 2 (exampleLod 2) = Inr (exampleLod 2, None)"
proof -
  have f: "LodManager_setQualityLevel 7 (exampleLod 2)
     = Inr ((exampleLod 2)\<lparr>currentLevel := 4,
              renderer := applyRendererSettings (DEFAULT_LOD_LEVELS ! 4) exampleRenderer\<rparr>,
            Some (DEFAULT_LOD_LEVELS ! 4))"
    by (simp add: LodManager_setQualityLevel_def getCurrentLodLevel_def Let_def exampleLod_def
        DEFAULT_LOD_LEVELS_def)
  have g: "max 0 (min (int (length (levels (exampleLod 2))) - 1) 2) = currentLevel (exampleLod 2)"
    by (simp add: exampleLod_def DEFAULT_LOD_LEVELS_def)
  from LodManager_setQualityLevel_idempotent [of 7 "exampleLod 2"] f
    LodManager_setQualityLevel_idempotent [of 2 "exampleLod 2"] g
  show ?thesis by simp
qed

section \<open>Particle counts\<close>






section \<open>The levels stay in range\<close>

lemma endFrame_settings: "settings (fst (endFrame env m)) = settings m"
  by (simp add: endFrame_def checkQualityAdjustment_frame settings_frameMetrics)

lemma endFrame_target_range:
  assumes "0 \<le> currentQualityLevel (metrics m)"
    and "currentQualityLevel (metrics m) \<le> qualityLevels (settings m) - 1"
    and "0 \<le> targetQualityLevel (metrics m)"
    and "targetQualityLevel (metrics m) \<le> qualityLevels (settings m) - 1"
  shows "0 \<le> targetQualityLevel (metrics (fst (endFrame env m)))
         \<and> targetQualityLevel (metrics (fst (endFrame env m))) \<le> qualityLevels (settings m) - 1"
proof (cases "snd (endFrame env m)")
  case None
  then have "fst (endFrame env m) = frameMetrics env m"
    using checkQualityAdjustment_quiet [of "checkNow env" "frameMetrics env m"]
    by (simp add: endFrame_def)
  with assms show ?thesis by (simp add: levels_frameMetrics)
next
  case (Some q)
  then have f: "snd (checkQualityAdjustment (checkNow env) (frameMetrics env m)) = Some q"
    by (simp add: endFrame_def)
  note fired = checkQualityAdjustment_fired [OF f]
  from fired have g: "gcRule (frameMetrics env m) (adjustmentRules (frameMetrics env m)) = (q, True)"
    by simp
  from gcRule_adjustmentRules_range [OF g] assms
  have "0 \<le> q \<and> q \<le> qualityLevels (settings m) - 1"
    by (simp add: levels_frameMetrics settings_frameMetrics)
  moreover from fired have "targetQualityLevel (metrics (fst (endFrame env m))) = q"
    by (simp add: endFrame_def)
  ultimately show ?thesis by simp
qed

lemma onQualityChange_range:
  assumes "levels l \<noteq> []" and "0 \<le> currentLevel l"
    and "currentLevel l \<le> int (length (levels l)) - 1"
  shows "\<exists>l1. onQualityChange cb l = Inr l1 \<and> levels l1 = levels l
           \<and> 0 \<le> currentLevel l1 \<and> currentLevel l1 \<le> int (length (levels l)) - 1"
proof (cases cb)
  case None
  with assms show ?thesis by (simp add: onQualityChange_def)
next
  case (Some q)
  from setq_total [OF assms(1), of q] obtain l1 cb1
    where r: "LodManager_setQualityLevel q l = Inr (l1, cb1)" by blast
  from assms(1) have "0 < length (levels l)" by simp
  with setq_result [OF r] Some r show ?thesis
    by (simp add: onQualityChange_def)
qed

lemma handleMemoryPressure_range:
  assumes "levels l \<noteq> []" and "0 \<le> currentLevel l"
    and "currentLevel l \<le> int (length (levels l)) - 1"
  shows "\<exists>l1. LodManager_handleMemoryPressure l = Inr l1 \<and> levels l1 = levels l
           \<and> 0 \<le> currentLevel l1 \<and> currentLevel l1 \<le> int (length (levels l)) - 1"
proof (cases "currentLevel l > 0")
  case False
  with assms show ?thesis by (simp add: LodManager_handleMemoryPressure_def)
next
  case True
  from setq_total [OF assms(1), of "max 0 (currentLevel l - 1)"] obtain l1 cb1
    where r: "LodManager_setQualityLevel (max 0 (currentLevel l - 1)) l = Inr (l1, cb1)" by blast
  from assms(1) have "0 < length (levels l)" by simp
  with setq_result [OF r] True r show ?thesis
    by (simp add: LodManager_handleMemoryPressure_def)
qed

lemma step_systemOk:
  assumes "systemOk s"
  shows "\<exists>s1. step x s = Inr s1 \<and> systemOk s1"
proof -
  from assms have lv: "levels (lod s) \<noteq> []" and lo: "0 \<le> currentLevel (lod s)"
    and hi: "currentLevel (lod s) \<le> int (length (levels (lod s))) - 1"
    and ql: "1 \<le> qualityLevels (settings (monitor s))"
    and c0: "0 \<le> currentQualityLevel (metrics (monitor s))"
    and c1: "currentQualityLevel (metrics (monitor s)) \<le> qualityLevels (settings (monitor s)) - 1"
    and t0: "0 \<le> targetQualityLevel (metrics (monitor s))"
    and t1: "targetQualityLevel (metrics (monitor s)) \<le> qualityLevels (settings (monitor s)) - 1"
    by (simp_all add: systemOk_def levelsInRange_def)
  show ?thesis
  proof (cases x)
    case (BeginFrame t info)
    with assms show ?thesis
      by (simp add: systemOk_def levelsInRange_def currentQualityLevel_phases
          targetQualityLevel_phases settings_phases)
  next
    case (EndFrame env)
    from onQualityChange_range [OF lv lo hi, of "snd (endFrame env (monitor s))"]
    obtain l1 where l: "onQualityChange (snd (endFrame env (monitor s))) (lod s) = Inr l1"
      "levels l1 = levels (lod s)" "0 \<le> currentLevel l1"
      "currentLevel l1 \<le> int (length (levels (lod s))) - 1" by blast
    have c: "currentQualityLevel (metrics (fst (endFrame env (monitor s))))
             = currentQualityLevel (metrics (monitor s))"
      by (simp add: endFrame_def checkQualityAdjustment_frame levels_frameMetrics)
    from endFrame_target_range [OF c0 c1 t0 t1, of env] l c c0 c1 ql lv EndFrame
    show ?thesis
      by (simp add: withMonitor_def systemOk_def levelsInRange_def endFrame_settings)
  next
    case (MonitorSetQuality n)
    let ?r = "PerformanceMonitor_setQualityLevel n (monitor s)"
    from onQualityChange_range [OF lv lo hi, of "snd ?r"]
    obtain l1 where l: "onQualityChange (snd ?r) (lod s) = Inr l1"
      "levels l1 = levels (lod s)" "0 \<le> currentLevel l1"
      "currentLevel l1 \<le> int (length (levels (lod s))) - 1" by blast
    have m: "settings (fst ?r) = settings (monitor s)"
      "currentQualityLevel (metrics (fst ?r)) = max 0 (min (qualityLevels (settings (monitor s)) - 1) n)"
      "targetQualityLevel (metrics (fst ?r)) = max 0 (min (qualityLevels (settings (monitor s)) - 1) n)"
      by (simp_all add: PerformanceMonitor_setQualityLevel_def Let_def)
    from l m ql lv MonitorSetQuality show ?thesis
      by (simp add: withMonitor_def systemOk_def levelsInRange_def)
  next
    case (LodSetQuality n)
    from onQualityChange_range [OF lv lo hi, of "Some n"]
    obtain l1 where l: "onQualityChange (Some n) (lod s) = Inr l1"
      "levels l1 = levels (lod s)" "0 \<le> currentLevel l1"
      "currentLevel l1 \<le> int (length (levels (lod s))) - 1" by blast
    from l(1) obtain cb where "LodManager_setQualityLevel n (lod s) = Inr (l1, cb)"
      by (auto simp: onQualityChange_def split: sum.splits)
    with l assms LodSetQuality show ?thesis
      by (simp add: systemOk_def levelsInRange_def)
  next
    case LodMemoryPressure
    from handleMemoryPressure_range [OF lv lo hi]
    obtain l1 where l: "LodManager_handleMemoryPressure (lod s) = Inr l1"
      "levels l1 = levels (lod s)" "0 \<le> currentLevel l1"
      "currentLevel l1 \<le> int (length (levels (lod s))) - 1" by blast
    with assms LodMemoryPressure show ?thesis
      by (simp add: systemOk_def levelsInRange_def)
  qed
qed

lemma run_systemOk:
  "systemOk s \<Longrightarrow> \<exists>s1. run ops s = Inr s1 \<and> systemOk s1"
proof (induction ops arbitrary: s)
  case Nil
  then show ?case by simp
next
  case (Cons x xs)
  from step_systemOk [OF Cons.prems, of x] obtain s1 where "step x s = Inr s1" "systemOk s1" by blast
  with Cons.IH [of s1] show ?case by simp
qed

lemma detectDeviceCapabilities_range:
  "0 \<le> detectDeviceCapabilities c \<and> detectDeviceCapabilities c \<le> 3"
  by (simp add: detectDeviceCapabilities_def)

lemma System_new_systemOk:
  assumes "1 \<le> qualityLevels st" and "lv \<noteq> []"
  shows "\<exists>s0. System_new st r lv c = Inr s0 \<and> systemOk s0"
proof -
  let ?cl = "min (detectDeviceCapabilities c) (int (length lv) - 1)"
  from assms(2) have len: "0 < length lv" by simp
  with detectDeviceCapabilities_range [of c] have cl: "0 \<le> ?cl \<and> ?cl < int (length lv)"
    by auto
  then obtain l where l: "LodManager_new r lv c = Inr l" "levels l = lv" "currentLevel l = ?cl"
    by (simp add: LodManager_new_def Let_def getCurrentLodLevel_def)
  with cl assms show ?thesis
    by (simp add: System_new_def systemOk_def levelsInRange_def
        PerformanceMonitor_setQualityLevel_def PerformanceMonitor_new_def Let_def)
qed

text \<open>
  C1. With at least one quality level configured and a non-empty LOD table, the system
  is constructed without an error, and after every sequence of \<open>beginFrame\<close>, \<open>endFrame\<close>,
  \<open>setQualityLevel\<close> (of the monitor or of the LOD manager) and memory-pressure calls
  no call has raised, \<open>currentQualityLevel\<close> and \<open>targetQualityLevel\<close> lie in
  \<open>[0, qualityLevels - 1]\<close>, and the LOD manager's level lies in \<open>[0, levels.length - 1]\<close>.
\<close>

theorem quality_levels_in_range:
  assumes "1 \<le> qualityLevels st" and "lv \<noteq> []"
  shows "\<exists>s0. System_new st r lv c = Inr s0 \<and> levelsInRange s0
           \<and> (\<forall>ops. \<exists>s. run ops s0 = Inr s \<and> levelsInRange s)"
proof -
  from System_new_systemOk [OF assms, of r c] obtain s0
    where s0: "System_new st r lv c = Inr s0" "systemOk s0" by blast
  have "\<exists>s. run ops s0 = Inr s \<and> levelsInRange s" for ops
    using run_systemOk [OF s0(2), of ops] by (auto simp: systemOk_def)
  with s0 show ?thesis by (auto simp: systemOk_def)
qed

theorem quality_levels_in_range_witness:
  "1 \<le> qualityLevels defaultSettings \<and> DEFAULT_LOD_LEVELS \<noteq> []
   \<and> (\<exists>s0. System_new defaultSettings exampleRenderer DEFAULT_LOD_LEVELS
              \<lparr>hasWebGL = True, isMobile = False, isHighEnd = True\<rparr> = Inr s0
            \<and> levelsInRange s0
            \<and> (\<forall>ops. \<exists>s. run ops s0 = Inr s \<and> levelsInRange s))"
proof -
  have h: "1 \<le> qualityLevels defaultSettings" "DEFAULT_LOD_LEVELS \<noteq> []"
    by (simp_all add: defaultSettings_def DEFAULT_LOD_LEVELS_def)
  from h quality_levels_in_range [OF h] show ?thesis by blast
qed

text \<open>
  Two decreases in one evaluation, at level 1: the memory rule and the \<open>gcTime\<close> rule
  both apply, and the level announced is 0.
\<close>

lemma stacked_decrease_example:
  "snd (endFrame (constrainedEnv 3100)
         (warmMonitor\<lparr>metrics := (metrics warmMonitor)
                         \<lparr>currentQualityLevel := 1, targetQualityLevel := 1\<rparr>\<rparr>)) = Some 0"
  by (simp add: endFrame_unfold warmMonitor_def constrainedEnv_def
      PerformanceMonitor_new_def defaultSettings_def)

section \<open>The stability score\<close>












section \<open>The current level is not touched by the automatic adjustment\<close>

lemma step_currentQualityLevel:
  assumes "step x s = Inr s1" and "\<forall>n. x \<noteq> MonitorSetQuality n"
  shows "currentQualityLevel (metrics (monitor s1)) = currentQualityLevel (metrics (monitor s))"
  using step_monitor_cases [OF assms(1)] assms(2)
  by (auto simp: currentQualityLevel_phases endFrame_def checkQualityAdjustment_frame
      levels_frameMetrics)

lemma run_currentQualityLevel:
  "run ops s = Inr s1 \<Longrightarrow> \<forall>n. MonitorSetQuality n \<notin> set ops \<Longrightarrow>
   currentQualityLevel (metrics (monitor s1)) = currentQualityLevel (metrics (monitor s))"
proof (induction ops arbitrary: s)
  case Nil
  then show ?case by simp
next
  case (Cons x xs)
  from Cons.prems(1) obtain s2 where s2: "step x s = Inr s2" "run xs s2 = Inr s1"
    by (auto split: sum.splits)
  from Cons.prems(2) have a: "\<forall>n. x \<noteq> MonitorSetQuality n" "\<forall>n. MonitorSetQuality n \<notin> set xs"
    by auto
  from Cons.IH [OF s2(2) a(2)] step_currentQualityLevel [OF s2(1) a(1)] show ?case by simp
qed

text \<open>
  C10. \<open>endFrame\<close> (and \<open>beginFrame\<close>) leave \<open>currentQualityLevel\<close> as it was; only
  \<open>setQualityLevel\<close> writes it. A level announced by the automatic adjustment becomes the
  target level, is one of \<open>current + 1\<close>, \<open>current\<close>, \<open>current - 1\<close>, \<open>current - 2\<close>
  (floored at 0), and is the same whatever the target level was before the call, which
  only decides whether the announcement is made. Over a run of the wired system with
  no \<open>setQualityLevel\<close> call on the monitor, \<open>currentQualityLevel\<close> ends as it began.
\<close>

theorem endFrame_keeps_current_level:
  "currentQualityLevel (metrics (fst (endFrame env m))) = currentQualityLevel (metrics m)
   \<and> currentQualityLevel (metrics (beginFrame t info m)) = currentQualityLevel (metrics m)
   \<and> (\<forall>q. snd (endFrame env m) = Some q \<longrightarrow>
         targetQualityLevel (metrics (fst (endFrame env m))) = q
         \<and> q \<in> {currentQualityLevel (metrics m) + 1, max 0 (currentQualityLevel (metrics m)),
                 max 0 (currentQualityLevel (metrics m) - 1),
                 max 0 (currentQualityLevel (metrics m) - 2)}
         \<and> (\<forall>x. snd (endFrame env (m\<lparr>metrics := (metrics m)\<lparr>targetQualityLevel := x\<rparr>\<rparr>))
                = (if x = q then None else Some q)))
   \<and> (snd (endFrame env m) = None \<longrightarrow>
         targetQualityLevel (metrics (fst (endFrame env m))) = targetQualityLevel (metrics m))
   \<and> currentQualityLevel (metrics (fst (PerformanceMonitor_setQualityLevel n m)))
       = max 0 (min (qualityLevels (settings m) - 1) n)
   \<and> (run ops s = Inr s1 \<and> (\<forall>k. MonitorSetQuality k \<notin> set ops) \<longrightarrow>
         currentQualityLevel (metrics (monitor s1))
           = currentQualityLevel (metrics (monitor s)))"
proof -
  have a: "currentQualityLevel (metrics (fst (endFrame env m))) = currentQualityLevel (metrics m)"
    by (simp add: endFrame_def checkQualityAdjustment_frame levels_frameMetrics)
  have b: "currentQualityLevel (metrics (beginFrame t info m)) = currentQualityLevel (metrics m)"
    by (rule currentQualityLevel_phases)
  have c: "targetQualityLevel (metrics (fst (endFrame env m))) = q
         \<and> q \<in> {currentQualityLevel (metrics m) + 1, max 0 (currentQualityLevel (metrics m)),
                 max 0 (currentQualityLevel (metrics m) - 1),
                 max 0 (currentQualityLevel (metrics m) - 2)}
         \<and> (\<forall>x. snd (endFrame env (m\<lparr>metrics := (metrics m)\<lparr>targetQualityLevel := x\<rparr>\<rparr>))
                = (if x = q then None else Some q))"
    if f: "snd (endFrame env m) = Some q" for q
  proof -
    from f have f': "snd (checkQualityAdjustment (checkNow env) (frameMetrics env m)) = Some q"
      by (simp add: endFrame_def)
    note fired = checkQualityAdjustment_fired [OF f']
    from fired have "targetQualityLevel (metrics (fst (endFrame env m))) = q"
      by (simp add: endFrame_def)
    moreover from fired gcRule_adjustmentRules_value [of "frameMetrics env m" q]
    have "q \<in> {currentQualityLevel (metrics m) + 1, max 0 (currentQualityLevel (metrics m)),
                 max 0 (currentQualityLevel (metrics m) - 1),
                 max 0 (currentQualityLevel (metrics m) - 2)}"
      by (simp add: levels_frameMetrics)
    moreover have "snd (endFrame env (m\<lparr>metrics := (metrics m)\<lparr>targetQualityLevel := x\<rparr>\<rparr>))
                = (if x = q then None else Some q)" for x
      unfolding endFrame_def frameMetrics_setTarget
      by (rule check_setTarget [OF f'])
    ultimately show ?thesis by blast
  qed
  have d: "targetQualityLevel (metrics (fst (endFrame env m))) = targetQualityLevel (metrics m)"
    if "snd (endFrame env m) = None"
    using that checkQualityAdjustment_quiet [of "checkNow env" "frameMetrics env m"]
    by (simp add: endFrame_def levels_frameMetrics)
  have e: "currentQualityLevel (metrics (fst (PerformanceMonitor_setQualityLevel n m)))
       = max 0 (min (qualityLevels (settings m) - 1) n)"
    by (simp add: PerformanceMonitor_setQualityLevel_def Let_def)
  have f: "run ops s = Inr s1 \<and> (\<forall>k. MonitorSetQuality k \<notin> set ops) \<longrightarrow>
         currentQualityLevel (metrics (monitor s1))
           = currentQualityLevel (metrics (monitor s))"
    using run_currentQualityLevel [of ops s s1] by blast
  from a b c d e f show ?thesis by blast
qed

theorem endFrame_keeps_current_level_witness:
  "snd (endFrame (constrainedEnv 3010) warmMonitor) = Some 3
   \<and> currentQualityLevel (metrics (fst (endFrame (constrainedEnv 3010) warmMonitor))) = 4
   \<and> targetQualityLevel (metrics (fst (endFrame (constrainedEnv 3010) warmMonitor))) = 3
   \<and> snd (endFrame (constrainedEnv 3010)
           (warmMonitor\<lparr>metrics := (metrics warmMonitor)\<lparr>targetQualityLevel := 3\<rparr>\<rparr>)) = None
   \<and> (\<forall>k. MonitorSetQuality k \<notin> set [EndFrame (constrainedEnv 3010), LodSetQuality 1])
   \<and> (\<exists>s1. run [EndFrame (constrainedEnv 3010), LodSetQuality 1] warmSystem = Inr s1
             \<and> currentQualityLevel (metrics (monitor s1)) = 4)"
proof -
  let ?ops = "[EndFrame (constrainedEnv 3010), LodSetQuality 1]"
  have f: "snd (endFrame (constrainedEnv 3010) warmMonitor) = Some 3"
    by (simp add: endFrame_unfold warmMonitor_def constrainedEnv_def
        PerformanceMonitor_new_def defaultSettings_def)
  have c: "currentQualityLevel (metrics warmMonitor) = 4"
    "currentQualityLevel (metrics (monitor warmSystem)) = 4"
    by (simp_all add: warmSystem_def warmMonitor_def PerformanceMonitor_new_def
        defaultSettings_def)
  have n: "\<forall>k. MonitorSetQuality k \<notin> set ?ops"
    by simp
  have "systemOk warmSystem"
    by (simp add: systemOk_def levelsInRange_def warmSystem_def warmMonitor_def
        PerformanceMonitor_new_def defaultSettings_def exampleLod_def DEFAULT_LOD_LEVELS_def)
  from run_systemOk [OF this, of ?ops] obtain s1 where r: "run ?ops warmSystem = Inr s1"
    by blast
  note t = endFrame_keeps_current_level [of "constrainedEnv 3010" warmMonitor 0 None 0
      ?ops warmSystem s1]
  from t r n c(2) have "currentQualityLevel (metrics (monitor s1)) = 4"
    by simp
  with r have e: "\<exists>s1. run ?ops warmSystem = Inr s1
             \<and> currentQualityLevel (metrics (monitor s1)) = 4"
    by blast
  from t f c(1) have "currentQualityLevel (metrics (fst (endFrame (constrainedEnv 3010) warmMonitor))) = 4
   \<and> targetQualityLevel (metrics (fst (endFrame (constrainedEnv 3010) warmMonitor))) = 3
   \<and> snd (endFrame (constrainedEnv 3010)
           (warmMonitor\<lparr>metrics := (metrics warmMonitor)\<lparr>targetQualityLevel := 3\<rparr>\<rparr>)) = None"
    by simp
  with f n e show ?thesis by blast
qed

section \<open>The period between adjustments\<close>

lemma beginFrame_None: "beginFrame t None m = m\<lparr>frameStartTime := t\<rparr>"
  by (simp add: beginFrame_def)

lemma pushHistory_nonempty: "0 < n \<Longrightarrow> pushHistory n x xs \<noteq> []"
  by (cases xs) (auto simp: pushHistory_def Let_def)

lemma steady_frame:
  assumes "steady k m"
  shows "endFrame (exampleEnv (25 * real k + 10)) (beginFrame (25 * real k) None m)
           = (frameMetrics (exampleEnv (25 * real k + 10)) (beginFrame (25 * real k) None m), None)
         \<and> steady (Suc k) (frameMetrics (exampleEnv (25 * real k + 10)) (beginFrame (25 * real k) None m))"
proof -
  let ?env = "exampleEnv (25 * real k + 10)"
  let ?b = "m\<lparr>frameStartTime := 25 * real k\<rparr>"
  let ?f = "frameMetrics ?env ?b"
  let ?h = "fpsHistory ?f"
  from assms have st: "settings m = defaultSettings" by (simp add: steady_def)
  have h: "?h = pushHistory 60 60 (fpsHistory m)"
    using assms by (auto simp: frameMetrics_fpsHistory steady_def)
  from assms have all: "list_all (\<lambda>x. x = 60) ?h"
    unfolding h by (intro list_all_pushHistory) (simp_all add: steady_def)
  have ne: "?h \<noteq> []" unfolding h by (rule pushHistory_nonempty) simp
  have avg: "averageFps (metrics ?f) = 60"
    using mean_const [OF all ne] by (simp add: frameMetrics_averageFps)
  have stab: "fpsStability (metrics ?f) = 1"
    using stabilityScore_const [OF all ne] assms
    by (simp add: frameMetrics_fpsStability steady_def)
  have fp: "fps (metrics ?f) = 60"
    using assms by (auto simp: frameMetrics_fps steady_def)
  have gc: "gcTime (metrics ?f) = 0"
    using assms by (simp add: frameMetrics_gcTime steady_def exampleEnv_def)
  have mem: "\<not> isMemoryConstrained (metrics ?f)"
    using assms by (simp add: frameMetrics_isMemoryConstrained steady_def exampleEnv_def)
  have use: "frameBudgetUsage (metrics ?f) = 3 / 5"
    by (simp add: frameMetrics_budget st defaultSettings_def exampleEnv_def)
  have crit: "\<not> isPerformanceCritical (metrics ?f)"
    using mean_const [OF all ne]
    by (simp add: frameMetrics_isPerformanceCritical use settings_frameMetrics st defaultSettings_def)
  have lv: "currentQualityLevel (metrics ?f) = 4" "targetQualityLevel (metrics ?f) = 4"
    using assms by (simp_all add: levels_frameMetrics steady_def)
  have sf: "settings ?f = defaultSettings"
    by (simp add: settings_frameMetrics st)
  have rules: "adjustmentRules ?f = (4, False)"
    by (simp add: adjustmentRules_def Let_def mem crit use avg stab lv sf defaultSettings_def)
  have "applyRules t ?f = (?f, None)" for t
    by (simp add: applyRules_def rules gcRule_def gc)
  then have e: "endFrame ?env ?b = (?f, None)"
    by (simp add: endFrame_def checkQualityAdjustment_def)
  have nw: "now ?env = 25 * real k + 10" by (simp add: exampleEnv_def)
  have "steady (Suc k) ?f"
    using assms all
    by (simp add: steady_def sf frameMetrics_misc gc mem fp stab lv nw)
  with e show ?thesis by (simp add: beginFrame_None)
qed

lemma steady_new: "steady 0 (PerformanceMonitor_new defaultSettings)"
  by (simp add: steady_def PerformanceMonitor_new_def defaultSettings_def)

lemma steady_nominalRun:
  "steady k (nominalRun k (PerformanceMonitor_new defaultSettings))"
proof (induction k)
  case 0
  show ?case by (simp add: steady_new)
next
  case (Suc k)
  from steady_frame [OF Suc] show ?case by simp
qed

lemma evaluatesRules_iff:
  "evaluatesRules env m
   = (adjustmentPeriod (settings m) \<le> checkNow env - lastAdjustmentTime m
      \<and> 100 \<le> frameCount m + 1)"
  by (auto simp: evaluatesRules_def reachesRules_def frameMetrics_misc settings_frameMetrics)

lemma endFrame_lastAdjustmentTime:
  "lastAdjustmentTime (fst (endFrame env m))
   = (if snd (endFrame env m) = None then lastAdjustmentTime m else checkNow env)"
proof (cases "snd (endFrame env m)")
  case None
  then show ?thesis
    using checkQualityAdjustment_quiet [of "checkNow env" "frameMetrics env m"]
    by (simp add: endFrame_def frameMetrics_misc)
next
  case (Some q)
  then show ?thesis
    using checkQualityAdjustment_fired [of "checkNow env" "frameMetrics env m" q]
    by (simp add: endFrame_def)
qed

lemma endFrame_fired_evaluates:
  assumes "snd (endFrame env m) \<noteq> None"
  shows "evaluatesRules env m"
proof -
  from assms obtain q where "snd (checkQualityAdjustment (checkNow env) (frameMetrics env m)) = Some q"
    by (auto simp: endFrame_def)
  from checkQualityAdjustment_fired [OF this] show ?thesis
    by (simp add: evaluatesRules_def)
qed

lemma step_monitor:
  assumes "step x s = Inr s1"
  shows "settings (monitor s1) = settings (monitor s)
         \<and> lastAdjustmentTime (monitor s1)
             = (case announced x s of [] \<Rightarrow> lastAdjustmentTime (monitor s) | t # ts \<Rightarrow> t)"
proof (cases x)
  case (BeginFrame t info)
  with assms show ?thesis
    by (auto simp: announced_def settings_phases beginFrame_def Let_def split: option.splits)
next
  case (EndFrame env)
  with assms have "monitor s1 = fst (endFrame env (monitor s))"
    by (auto simp: withMonitor_def split: sum.splits)
  with EndFrame show ?thesis
    by (simp add: announced_def endFrame_settings endFrame_lastAdjustmentTime)
next
  case (MonitorSetQuality n)
  with assms have "monitor s1 = fst (PerformanceMonitor_setQualityLevel n (monitor s))"
    by (auto simp: withMonitor_def split: sum.splits)
  with MonitorSetQuality show ?thesis
    by (simp add: announced_def PerformanceMonitor_setQualityLevel_def Let_def)
next
  case (LodSetQuality n)
  with assms show ?thesis
    by (auto simp: announced_def split: sum.splits)
next
  case LodMemoryPressure
  with assms show ?thesis
    by (auto simp: announced_def split: sum.splits)
qed

lemma announced_spaced:
  "spaced (adjustmentPeriod (settings (monitor s))) (lastAdjustmentTime (monitor s)) (announced x s)"
proof (cases x)
  case (EndFrame env)
  show ?thesis
  proof (cases "snd (endFrame env (monitor s)) = None")
    case True
    with EndFrame show ?thesis by (simp add: announced_def)
  next
    case False
    from endFrame_fired_evaluates [OF False] False EndFrame show ?thesis
      by (simp add: announced_def evaluatesRules_iff)
  qed
qed (simp_all add: announced_def)

lemma announced_length: "length (announced x s) \<le> 1"
  by (cases x) (simp_all add: announced_def)

lemma spaced_announcements:
  "spaced (adjustmentPeriod (settings (monitor s))) (lastAdjustmentTime (monitor s))
     (announcements ops s)"
proof (induction ops arbitrary: s)
  case Nil
  show ?case by simp
next
  case (Cons x xs)
  show ?case
  proof (cases "step x s")
    case (Inl e)
    with announced_spaced [of s x] show ?thesis by simp
  next
    case (Inr s1)
    note m = step_monitor [OF Inr]
    show ?thesis
    proof (cases "announced x s")
      case Nil
      with Inr m Cons.IH [of s1] show ?thesis by simp
    next
      case (Cons t ts)
      with announced_length [of x s] have ts: "ts = []" by simp
      with Cons Inr m announced_spaced [of s x] Cons.IH [of s1] show ?thesis by simp
    qed
  qed
qed

lemma spaced_all:
  "spaced p t0 ts \<Longrightarrow> 0 \<le> p \<Longrightarrow> t \<in> set ts \<Longrightarrow> p \<le> t - t0"
proof (induction ts arbitrary: t0)
  case Nil
  then show ?case by simp
next
  case (Cons u us)
  show ?case
  proof (cases "t = u")
    case True
    with Cons.prems show ?thesis by simp
  next
    case False
    with Cons.prems have "t \<in> set us" "spaced p u us" by simp_all
    from Cons.IH [OF this(2) Cons.prems(2) this(1)] Cons.prems show ?thesis by simp
  qed
qed

lemma spaced_pairs:
  "spaced p t0 ts \<Longrightarrow> 0 \<le> p \<Longrightarrow> i < j \<Longrightarrow> j < length ts \<Longrightarrow> p \<le> ts ! j - ts ! i"
proof (induction ts arbitrary: t0 i j)
  case Nil
  then show ?case by simp
next
  case (Cons u us)
  from Cons.prems obtain j' where j: "j = Suc j'" by (cases j) simp_all
  show ?case
  proof (cases i)
    case 0
    from Cons.prems j have "us ! j' \<in> set us" "spaced p u us" by simp_all
    from spaced_all [OF this(2) Cons.prems(2) this(1)] 0 j show ?thesis by simp
  next
    case (Suc i')
    from Cons.prems j Suc have "spaced p u us" "i' < j'" "j' < length us" by simp_all
    from Cons.IH [OF this(1) Cons.prems(2) this(2) this(3)] j Suc show ?thesis by simp
  qed
qed

text \<open>
  C3, as the code has it. An \<open>endFrame\<close> call evaluates the rules only when it is at least
  the 100th frame counted and at least \<open>adjustmentPeriod\<close> (2000 ms by default) has passed
  since the last adjustment that was applied; otherwise it announces nothing. Only a
  call that announces a level restarts the period. So in every run the announcements
  are spaced: each is at least \<open>adjustmentPeriod\<close> after the one before, and any two are
  at least that far apart.
\<close>

theorem adjustment_throttle:
  "(frameCount m + 1 < 100 \<longrightarrow> \<not> evaluatesRules env m)
   \<and> (checkNow env - lastAdjustmentTime m < adjustmentPeriod (settings m) \<longrightarrow>
        \<not> evaluatesRules env m)
   \<and> (\<not> evaluatesRules env m \<longrightarrow> snd (endFrame env m) = None)
   \<and> (snd (endFrame env m) \<noteq> None \<longrightarrow>
        lastAdjustmentTime (fst (endFrame env m)) = checkNow env)
   \<and> (snd (endFrame env m) = None \<longrightarrow>
        lastAdjustmentTime (fst (endFrame env m)) = lastAdjustmentTime m)
   \<and> spaced (adjustmentPeriod (settings (monitor s))) (lastAdjustmentTime (monitor s))
        (announcements ops s)
   \<and> (0 \<le> adjustmentPeriod (settings (monitor s)) \<longrightarrow>
        (\<forall>i j. i < j \<and> j < length (announcements ops s) \<longrightarrow>
           adjustmentPeriod (settings (monitor s))
             \<le> announcements ops s ! j - announcements ops s ! i))
   \<and> adjustmentPeriod defaultSettings = 2000"
proof -
  have a: "frameCount m + 1 < 100 \<longrightarrow> \<not> evaluatesRules env m"
    by (simp add: evaluatesRules_iff)
  have b: "checkNow env - lastAdjustmentTime m < adjustmentPeriod (settings m) \<longrightarrow>
        \<not> evaluatesRules env m"
    by (simp add: evaluatesRules_iff)
  have c: "\<not> evaluatesRules env m \<longrightarrow> snd (endFrame env m) = None"
    using endFrame_fired_evaluates [of env m] by blast
  have d: "snd (endFrame env m) \<noteq> None \<longrightarrow>
        lastAdjustmentTime (fst (endFrame env m)) = checkNow env"
    by (simp add: endFrame_lastAdjustmentTime)
  have e: "snd (endFrame env m) = None \<longrightarrow>
        lastAdjustmentTime (fst (endFrame env m)) = lastAdjustmentTime m"
    by (simp add: endFrame_lastAdjustmentTime)
  note f = spaced_announcements [of s ops]
  have g: "0 \<le> adjustmentPeriod (settings (monitor s)) \<longrightarrow>
        (\<forall>i j. i < j \<and> j < length (announcements ops s) \<longrightarrow>
           adjustmentPeriod (settings (monitor s))
             \<le> announcements ops s ! j - announcements ops s ! i)"
    using spaced_pairs [OF f] by blast
  have h: "adjustmentPeriod defaultSettings = 2000"
    by (simp add: defaultSettings_def)
  from a b c d e f g h show ?thesis by blast
qed

theorem adjustment_throttle_witness:
  "frameCount (PerformanceMonitor_new defaultSettings) + 1 < 100
   \<and> \<not> evaluatesRules (exampleEnv 5000) (PerformanceMonitor_new defaultSettings)
   \<and> 0 \<le> adjustmentPeriod (settings (monitor warmSystem))
   \<and> announcements [EndFrame (constrainedEnv 3010), MonitorSetQuality 3,
                     EndFrame (constrainedEnv 5020)] warmSystem = [3010, 5020]
   \<and> spaced 2000 0 [3010, 5020]
   \<and> (2000::real) \<le> [3010, 5020] ! 1 - [3010, 5020] ! 0"
proof -
  let ?ops = "[EndFrame (constrainedEnv 3010), MonitorSetQuality 3,
               EndFrame (constrainedEnv 5020)]"
  have w: "announcements ?ops warmSystem = [3010, 5020]"
    by (simp add: announced_def withMonitor_def onQualityChange_def
        LodManager_setQualityLevel_def getCurrentLodLevel_def applyRendererSettings_def
        PerformanceMonitor_setQualityLevel_def
        endFrame_unfold warmSystem_def warmMonitor_def constrainedEnv_def exampleLod_def
        exampleRenderer_def DEFAULT_LOD_LEVELS_def
        PerformanceMonitor_new_def defaultSettings_def)
  have f: "frameCount (PerformanceMonitor_new defaultSettings) + 1 < 100"
    by (simp add: PerformanceMonitor_new_def)
  have p: "adjustmentPeriod (settings (monitor warmSystem)) = 2000"
    "lastAdjustmentTime (monitor warmSystem) = 0"
    by (simp_all add: warmSystem_def warmMonitor_def PerformanceMonitor_new_def
        defaultSettings_def)
  note t = adjustment_throttle [of "PerformanceMonitor_new defaultSettings" "exampleEnv 5000"
      warmSystem ?ops]
  from t f have a: "\<not> evaluatesRules (exampleEnv 5000) (PerformanceMonitor_new defaultSettings)"
    by blast
  from t have b: "spaced 2000 0 [3010, 5020]"
    unfolding w p by blast
  from t have "\<forall>i j. i < j \<and> j < length [3010, 5020::real] \<longrightarrow>
      (2000::real) \<le> [3010, 5020] ! j - [3010, 5020] ! i"
    unfolding w p by simp
  then have c: "(2000::real) \<le> [3010, 5020] ! 1 - [3010, 5020] ! 0"
    by simp
  from f a p w b c show ?thesis by simp
qed

text \<open>
  C3 as stated fails: an evaluation that changes nothing does not restart the period.
  On a new monitor with the default settings and even frames 25 ms apart, the 100th
  and the 101st \<open>endFrame\<close> calls, at 2485 ms and 2510 ms, both evaluate the rules.
\<close>

theorem evaluation_every_frame_counterexample:
  "evaluatesRules (exampleEnv 2485)
     (beginFrame 2475 None (nominalRun 99 (PerformanceMonitor_new defaultSettings)))
   \<and> nominalRun 100 (PerformanceMonitor_new defaultSettings)
       = fst (endFrame (exampleEnv 2485)
               (beginFrame 2475 None (nominalRun 99 (PerformanceMonitor_new defaultSettings))))
   \<and> evaluatesRules (exampleEnv 2510)
       (beginFrame 2500 None (nominalRun 100 (PerformanceMonitor_new defaultSettings)))
   \<and> checkNow (exampleEnv 2510) - checkNow (exampleEnv 2485)
       < adjustmentPeriod (settings (nominalRun 99 (PerformanceMonitor_new defaultSettings)))"
proof -
  let ?m0 = "PerformanceMonitor_new defaultSettings"
  note s99 = steady_nominalRun [of 99]
  note s100 = steady_nominalRun [of 100]
  have a: "evaluatesRules (exampleEnv 2485) (beginFrame 2475 None (nominalRun 99 ?m0))"
    using s99
    by (simp add: evaluatesRules_iff beginFrame_None steady_def defaultSettings_def exampleEnv_def)
  have n: "Suc 99 = 100" "25 * real (99::nat) = 2475" "(2475::real) + 10 = 2485"
    by simp_all
  have "nominalRun (Suc 99) ?m0
       = fst (endFrame (exampleEnv (25 * real (99::nat) + 10))
               (beginFrame (25 * real (99::nat)) None (nominalRun 99 ?m0)))"
    by (rule nominalRun.simps(2))
  then have b: "nominalRun 100 ?m0
       = fst (endFrame (exampleEnv 2485) (beginFrame 2475 None (nominalRun 99 ?m0)))"
    by (simp only: n)
  have c: "evaluatesRules (exampleEnv 2510) (beginFrame 2500 None (nominalRun 100 ?m0))"
    using s100
    by (simp add: evaluatesRules_iff beginFrame_None steady_def defaultSettings_def exampleEnv_def)
  have d: "checkNow (exampleEnv 2510) - checkNow (exampleEnv 2485)
       < adjustmentPeriod (settings (nominalRun 99 ?m0))"
    using s99 by (simp add: steady_def defaultSettings_def exampleEnv_def)
  from a b c d show ?thesis by blast
qed

section \<open>Releasing to a pool\<close>

lemma release_untracked:
  "obj |\<notin>| inUse s \<Longrightarrow> Pool_release f obj s = s\<lparr>diagnostics := diagnostics s
                @ [''Trying to release an object not managed by this pool'']\<rparr>"
  by (simp add: Pool_release_def)

lemma createBatch_inUse: "inUse (createBatch f a b s) = inUse s"
  by (simp add: createBatch_def Let_def)

lemma prewarm_inUse: "inUse (prewarm f n s) = inUse s"
  by (simp add: prewarm_def Let_def createBatch_inUse)

lemma trim_inUse: "inUse (trim n s) = inUse s"
  by (simp add: trim_def Let_def)

lemma checkAdaptiveSize_inUse: "inUse (checkAdaptiveSize f s) = inUse s"
  by (simp add: checkAdaptiveSize_def Let_def trim_inUse prewarm_inUse)

lemma checkAdaptiveSize_short:
  "length (usageHistory s) < 50 \<Longrightarrow> checkAdaptiveSize f s = s"
  by (simp add: checkAdaptiveSize_def)

lemma release_inUse: "inUse (Pool_release f obj s) = inUse s |-| {|obj|}"
  by (auto simp: Pool_release_def Let_def checkAdaptiveSize_inUse)

lemma get_inUse: "inUse (snd (Pool_get f s)) = finsert (fst (Pool_get f s)) (inUse s)"
  by (simp add: Pool_get_def Let_def recordUsage_def split: prod.splits)

lemma get_maxSize: "maxSize (snd (Pool_get f s)) = maxSize s"
  by (simp add: Pool_get_def Let_def recordUsage_def split: prod.splits)

lemma getThenRelease_parts:
  "fst (getThenRelease f s) = fst (Pool_get f s)"
  "snd (getThenRelease f s) = Pool_release f (fst (Pool_get f s)) (snd (Pool_get f s))"
  by (simp_all add: getThenRelease_def split: prod.splits)

lemma getThenRelease_inUse:
  "inUse (snd (getThenRelease f s)) = inUse s |-| {|fst (getThenRelease f s)|}"
  by (simp add: getThenRelease_parts release_inUse get_inUse)

lemma getThenRelease_pool:
  assumes "\<not> (maxSize s > 0 \<and> int (length (pool (snd (Pool_get f s)))) \<ge> maxSize s)"
    and "length (usageHistory (snd (Pool_get f s))) < 50"
  shows "pool (snd (getThenRelease f s)) = pool (snd (Pool_get f s)) @ [fst (getThenRelease f s)]"
proof -
  let ?o = "fst (Pool_get f s)" and ?s1 = "snd (Pool_get f s)"
  have "?o |\<in>| inUse ?s1" by (simp add: get_inUse)
  with assms show ?thesis
    by (simp add: getThenRelease_parts Pool_release_def Let_def get_maxSize
        checkAdaptiveSize_short)
qed

lemmas pool_unfold = getThenRelease_def Pool_get_def Pool_release_def checkAdaptiveSize_def
  recordUsage_def trim_def Pool_new_def Let_def inUseCount_def available_def Pool_size_def
  fcard_fempty fcard_finsert_if

text \<open>
  C9, as the code has it. Releasing an object that is not in the in-use set only adds a
  diagnostic: the pool, and so \<open>size()\<close>, \<open>available()\<close> and \<open>inUseCount()\<close>, are as before.
  A \<open>get()\<close> followed at once by the \<open>release\<close> of its object takes that object, and no
  other, out of the in-use set; so when nothing else was in use, \<open>inUseCount()\<close> is 0 and
  \<open>available()\<close> equals \<open>size()\<close> afterwards. With no \<open>maxSize\<close> cap reached and fewer
  than 50 usages recorded, the object is the new last element of the free list.
\<close>

theorem release_untracked_and_roundtrip:
  "(obj |\<notin>| inUse s \<longrightarrow>
      Pool_release f obj s
        = s\<lparr>diagnostics := diagnostics s
               @ [''Trying to release an object not managed by this pool'']\<rparr>
      \<and> Pool_size (Pool_release f obj s) = Pool_size s
      \<and> available (Pool_release f obj s) = available s
      \<and> inUseCount (Pool_release f obj s) = inUseCount s)
   \<and> inUse (snd (getThenRelease f s)) = inUse s |-| {|fst (getThenRelease f s)|}
   \<and> (inUse s = {||} \<longrightarrow>
        inUseCount (snd (getThenRelease f s)) = 0
        \<and> available (snd (getThenRelease f s)) = Pool_size (snd (getThenRelease f s)))
   \<and> (\<not> (maxSize s > 0 \<and> int (length (pool (snd (Pool_get f s)))) \<ge> maxSize s)
        \<and> length (usageHistory (snd (Pool_get f s))) < 50 \<longrightarrow>
        pool (snd (getThenRelease f s))
          = pool (snd (Pool_get f s)) @ [fst (getThenRelease f s)])"
proof -
  have a: "Pool_release f obj s
        = s\<lparr>diagnostics := diagnostics s
               @ [''Trying to release an object not managed by this pool'']\<rparr>
      \<and> Pool_size (Pool_release f obj s) = Pool_size s
      \<and> available (Pool_release f obj s) = available s
      \<and> inUseCount (Pool_release f obj s) = inUseCount s"
    if "obj |\<notin>| inUse s"
    using release_untracked [OF that, of f]
    by (simp add: Pool_size_def available_def inUseCount_def)
  have c: "inUseCount (snd (getThenRelease f s)) = 0
        \<and> available (snd (getThenRelease f s)) = Pool_size (snd (getThenRelease f s))"
    if "inUse s = {||}"
    using that getThenRelease_inUse [of f s]
    by (simp add: inUseCount_def available_def Pool_size_def fcard_fempty)
  from a c getThenRelease_inUse [of f s] getThenRelease_pool [of s f] show ?thesis
    by blast
qed

theorem release_untracked_and_roundtrip_witness:
  "7 |\<notin>| inUse busyPool
   \<and> inUseCount (Pool_release (\<lambda>n. n) 7 busyPool) = inUseCount busyPool
   \<and> Pool_size (Pool_release (\<lambda>n. n) 7 busyPool) = Pool_size busyPool
   \<and> inUse freshPool = {||}
   \<and> fst (getThenRelease (\<lambda>n. n) freshPool) = 0
   \<and> inUseCount (snd (getThenRelease (\<lambda>n. n) freshPool)) = 0
   \<and> available (snd (getThenRelease (\<lambda>n. n) freshPool))
       = Pool_size (snd (getThenRelease (\<lambda>n. n) freshPool))
   \<and> pool (snd (getThenRelease (\<lambda>n. n) freshPool)) = [0]"
proof -
  have h: "7 |\<notin>| inUse busyPool" "inUse freshPool = {||}"
    "fst (getThenRelease (\<lambda>n. n) freshPool) = 0"
    "\<not> (maxSize freshPool > 0
        \<and> int (length (pool (snd (Pool_get (\<lambda>n. n) freshPool)))) \<ge> maxSize freshPool)
     \<and> length (usageHistory (snd (Pool_get (\<lambda>n. n) freshPool))) < 50"
    "pool (snd (Pool_get (\<lambda>n. n) freshPool)) = []"
    by (simp_all add: pool_unfold busyPool_def freshPool_def)
  note t1 = release_untracked_and_roundtrip [of 7 busyPool "\<lambda>n. n"]
  note t2 = release_untracked_and_roundtrip [of 7 freshPool "\<lambda>n. n"]
  from t1 h(1) have a: "inUseCount (Pool_release (\<lambda>n. n) 7 busyPool) = inUseCount busyPool
     \<and> Pool_size (Pool_release (\<lambda>n. n) 7 busyPool) = Pool_size busyPool"
    by blast
  from t2 h(2) have b: "inUseCount (snd (getThenRelease (\<lambda>n. n) freshPool)) = 0
     \<and> available (snd (getThenRelease (\<lambda>n. n) freshPool))
         = Pool_size (snd (getThenRelease (\<lambda>n. n) freshPool))"
    by blast
  from t2 h(4) have "pool (snd (getThenRelease (\<lambda>n. n) freshPool))
          = pool (snd (Pool_get (\<lambda>n. n) freshPool)) @ [fst (getThenRelease (\<lambda>n. n) freshPool)]"
    by blast
  with h(3) h(5) have c: "pool (snd (getThenRelease (\<lambda>n. n) freshPool)) = [0]"
    by simp
  from h(1) h(2) h(3) a b c show ?thesis by blast
qed

text \<open>
  C9 as stated fails when another object is in use: with object 0 handed out, \<open>get()\<close>
  returns object 1, and after its release one object is still in use, one is available
  and the pool's size is 2.
\<close>

theorem release_with_others_in_use_counterexample:
  "fst (getThenRelease (\<lambda>n. n) busyPool) = 1
   \<and> maxSize busyPool = 0
   \<and> inUseCount (snd (getThenRelease (\<lambda>n. n) busyPool)) = 1
   \<and> available (snd (getThenRelease (\<lambda>n. n) busyPool)) = 1
   \<and> Pool_size (snd (getThenRelease (\<lambda>n. n) busyPool)) = 2"
  by (simp add: pool_unfold busyPool_def freshPool_def)

text \<open>
  Once 50 usages are recorded the adaptive check runs after the push. In the 50th round
  of \<open>get\<close> and \<open>release\<close> on a pool where nothing else is ever in use, the ideal size
  is 0 and the object just released is trimmed off the free list again.
\<close>

lemma release_trimmed_example:
  "fst (getThenRelease (\<lambda>n. n) roundsPool) = 0
   \<and> maxSize roundsPool = 0
   \<and> pool (snd (getThenRelease (\<lambda>n. n) roundsPool)) = []
   \<and> inUseCount (snd (getThenRelease (\<lambda>n. n) roundsPool)) = 0"
  by (simp add: pool_unfold roundsPool_def freshPool_def)

lemma rounds_closed_form:
  "n < 49 \<Longrightarrow>
   ((\<lambda>s. snd (getThenRelease (\<lambda>n. n) s)) ^^ Suc n) freshPool
   = freshPool\<lparr>pool := [0], creationCount := 1, usageHistory := replicate (Suc n) 0,
               poolHits := n, poolMisses := 1, maxUsageCount := 1\<rparr>"
proof (induction n)
  case 0
  show ?case by (simp add: pool_unfold freshPool_def)
next
  case (Suc n)
  then have ih: "((\<lambda>s. snd (getThenRelease (\<lambda>n. n) s)) ^^ Suc n) freshPool
   = freshPool\<lparr>pool := [0], creationCount := 1, usageHistory := replicate (Suc n) 0,
               poolHits := n, poolMisses := 1, maxUsageCount := 1\<rparr>"
    by simp
  have r: "replicate n (0::nat) @ [0] = 0 # replicate n 0"
    by (simp add: replicate_append_same)
  from Suc.prems show ?case
    unfolding funpow.simps(2) [of "Suc n"] o_def ih
    by (simp add: pool_unfold freshPool_def r)
qed

lemma roundsPool_reached:
  "((\<lambda>s. snd (getThenRelease (\<lambda>n. n) s)) ^^ 49) freshPool = roundsPool"
proof -
  have "(49::nat) = Suc 48" by simp
  then have "((\<lambda>s. snd (getThenRelease (\<lambda>n. n) s)) ^^ 49) freshPool
     = ((\<lambda>s. snd (getThenRelease (\<lambda>n. n) s)) ^^ Suc 48) freshPool"
    by (simp only:)
  also have "\<dots> = freshPool\<lparr>pool := [0], creationCount := 1, usageHistory := replicate (Suc 48) 0,
               poolHits := 48, poolMisses := 1, maxUsageCount := 1\<rparr>"
    by (rule rounds_closed_form) simp
  finally show ?thesis by (simp add: roundsPool_def)
qed

section \<open>Disposal of a visualization\<close>

lemma removeChildren_empty: "removeChildren cs = []"
proof (induction cs rule: removeChildren.induct)
  case (1 cs)
  note e = removeChildren.simps [of cs]
  show ?case
  proof (cases "length cs > 0")
    case True
    with e have "removeChildren cs = removeChildren (remove1 (cs ! 0) cs)"
      by (simp only: if_True)
    with 1 [OF True] show ?thesis by (simp only:)
  next
    case False
    with e have "removeChildren cs = cs" by (simp only: if_False)
    with False show ?thesis by simp
  qed
qed

lemma clearScene_all:
  "objects (clearScene True s) = [] \<and> scene (clearScene True s) = []"
  by (simp add: clearScene_def Let_def removeChildren_empty)

lemma clearScene_caches:
  "textureCache (clearScene b s) = textureCache s"
  "materialCache (clearScene b s) = materialCache s"
  "geometryCache (clearScene b s) = geometryCache s"
  "materials (clearScene b s) = materials s"
  "geometries (clearScene b s) = geometries s"
  "objectPools (clearScene b s) = objectPools s"
  by (simp_all add: clearScene_def Let_def)

text \<open>
  C8. After \<open>dispose()\<close> the list of tracked objects is empty, the scene has no children
  left, so no object that was tracked is anywhere in the scene graph, and the material,
  geometry and texture caches have no entries; the tracked materials and geometries
  and the pools are gone as well.
\<close>

theorem dispose_leaves_nothing:
  "objects (dispose s) = []
   \<and> scene (dispose s) = []
   \<and> (\<forall>obj \<in> set (objects s). obj \<notin> sceneGraph (scene (dispose s)))
   \<and> materialCache (dispose s) = []
   \<and> geometryCache (dispose s) = []
   \<and> textureCache (dispose s) = []
   \<and> materials (dispose s) = [] \<and> geometries (dispose s) = []
   \<and> objectPools (dispose s) = []"
proof -
  have a: "objects (dispose s) = [] \<and> scene (dispose s) = []"
    unfolding dispose_def Let_def by (rule clearScene_all)
  then have b: "\<forall>obj \<in> set (objects s). obj \<notin> sceneGraph (scene (dispose s))"
    by (simp add: sceneGraph_def)
  have c: "materialCache (dispose s) = [] \<and> geometryCache (dispose s) = []
     \<and> textureCache (dispose s) = [] \<and> materials (dispose s) = []
     \<and> geometries (dispose s) = [] \<and> objectPools (dispose s) = []"
    by (simp add: dispose_def Let_def clearScene_caches)
  from a b c show ?thesis by blast
qed

theorem dispose_leaves_nothing_witness:
  "Object3D 1 [Object3D 2 []] \<in> set (objects exampleVis)
   \<and> Object3D 1 [Object3D 2 []] \<in> sceneGraph (scene exampleVis)
   \<and> Object3D 1 [Object3D 2 []] \<notin> sceneGraph (scene (dispose exampleVis))
   \<and> length (materialCache exampleVis) = 1
   \<and> materialCache (dispose exampleVis) = []
   \<and> objects (dispose exampleVis) = []"
proof -
  have h: "Object3D 1 [Object3D 2 []] \<in> set (objects exampleVis)"
    "Object3D 1 [Object3D 2 []] \<in> sceneGraph (scene exampleVis)"
    "length (materialCache exampleVis) = 1"
    by (simp_all add: exampleVis_def sceneGraph_def)
  from dispose_leaves_nothing [of exampleVis] h show ?thesis by blast
qed

section \<open>Beats and the update gate\<close>

lemma shouldUpdate_total:
  assumes "getCurrentLodLevel l \<noteq> None"
  shows "\<exists>su l1. shouldUpdate imp d l = Inr (su, l1) \<and> getCurrentLodLevel l1 \<noteq> None"
proof -
  from assms obtain lv where lv: "getCurrentLodLevel l = Some lv" by blast
  have "getCurrentLodLevel (l\<lparr>frameCounter := frameCounter l + 1\<rparr>) = getCurrentLodLevel l"
    by (simp add: getCurrentLodLevel_def)
  with lv show ?thesis
    by (simp add: shouldUpdate_def Let_def)
qed

lemma gate_total:
  assumes "lodUsable s"
  shows "\<exists>g s3. gate imp s = Inr (g, s3) \<and> isVisible s3 = isVisible s"
proof (cases "lodManager s")
  case None
  then show ?thesis by (simp add: gate_def)
next
  case (Some l)
  with assms have "getCurrentLodLevel l \<noteq> None" by (simp add: lodUsable_def)
  from shouldUpdate_total [OF this, of imp "distanceToCamera s"] obtain su l1
    where r: "shouldUpdate imp (distanceToCamera s) l = Inr (su, l1)"
      "getCurrentLodLevel l1 \<noteq> None" by blast
  then obtain q where "getEffectComplexity l1 = Some q"
    by (auto simp: getEffectComplexity_def)
  with Some r show ?thesis
    by (auto simp: gate_def)
qed

lemma cleanup_isVisible: "isVisible (cleanupUnusedResources s) = isVisible s"
  by (simp add: cleanupUnusedResources_def Let_def)

lemmas update_unfold = update_def gate_def shouldUpdate_def getEffectComplexity_def
  getCurrentLodLevel_def cleanupUnusedResources_def Let_def

text \<open>
  C7. When \<open>update\<close> is called with a beat detected with confidence above 0.5, on a
  visualization that is visible in this frame (no camera is given, or the camera is
  closer than \<open>visibilityThreshold\<close>) and whose LOD manager, if it has one, has its level
  inside its table, the style's \<open>updateVisualization\<close> is invoked in that call, whatever the
  gate answered. It runs on a visualization marked visible, with the update time
  recorded and the draw-call counter reset.
\<close>

theorem beat_forces_update:
  assumes "detected (beat a)" and "confidence (beat a) > 0.5"
    and "visibleFrom camera s" and "lodUsable s"
  shows "\<exists>s1. update uv elapsed a instruments camera s = Inr (Updated (uv a s1))
              \<and> isVisible s1 \<and> lastUpdateTime s1 = elapsed \<and> visDrawCalls s1 = 0"
proof -
  let ?s1 = "s\<lparr>visFrameCount := visFrameCount s + 1,
                uniforms := (uniforms s)\<lparr>timeValue := elapsed,
                                          beatValue := (if detected (beat a) then 1 else 0),
                                          volumeValue := volume a\<rparr>,
                detectedInstruments := instruments\<rparr>"
  let ?s2 = "(case camera of
                 Some c \<Rightarrow>
                   ?s1\<lparr>distanceToCamera := distanceToOrigin c,
                      isVisible := (distanceToOrigin c < visibilityThreshold ?s1),
                      frustumCamera := (if useFrustumCulling ?s1 then Some c
                                        else frustumCamera ?s1)\<rparr>
               | None \<Rightarrow> ?s1\<lparr>isVisible := True, distanceToCamera := 0\<rparr>)"
  have vis: "isVisible ?s2"
    using assms(3) by (cases camera) (simp_all add: visibleFrom_def)
  have "lodManager ?s2 = lodManager s"
    by (cases camera) simp_all
  with assms(4) have "lodUsable ?s2" by (simp add: lodUsable_def)
  from gate_total [OF this, of "9 / 10"] obtain g s3
    where g: "gate (9 / 10) ?s2 = Inr (g, s3)" "isVisible s3 = isVisible ?s2" 
    by blast
  define s4 where "s4 = (if elapsed - lastCleanupTime s3 > memoryCleanupInterval s3 / 1000
                      then (cleanupUnusedResources s3)\<lparr>lastCleanupTime := elapsed\<rparr>
                      else s3)"
  have v4: "isVisible s4"
    using g(2) vis by (simp add: s4_def cleanup_isVisible)
  have "update uv elapsed a instruments camera s
        = Inr (Updated (uv a (s4\<lparr>lastUpdateTime := elapsed, visDrawCalls := 0\<rparr>)))"
    unfolding update_def Let_def
    using assms(1,2) g(1) v4 by (simp add: s4_def)
  moreover have "isVisible (s4\<lparr>lastUpdateTime := elapsed, visDrawCalls := 0\<rparr>)"
    using v4 by simp
  ultimately show ?thesis by force
qed

theorem beat_forces_update_witness:
  "detected (beat beatFrame) \<and> confidence (beat beatFrame) > 0.5
   \<and> visibleFrom None exampleVis \<and> lodUsable exampleVis
   \<and> gate 0.9 (exampleVis\<lparr>visFrameCount := 1\<rparr>)
        = Inr (False, exampleVis\<lparr>visFrameCount := 1,
                 lodManager := Some ((exampleLod 0)\<lparr>frameCounter := 1\<rparr>)\<rparr>)
   \<and> (\<exists>s1. update (\<lambda>a v. v) 1 beatFrame [] None exampleVis = Inr (Updated s1)
             \<and> isVisible s1 \<and> lastUpdateTime s1 = 1 \<and> visDrawCalls s1 = 0)"
proof -
  have h: "detected (beat beatFrame)" "confidence (beat beatFrame) > 0.5"
    "visibleFrom None exampleVis" "lodUsable exampleVis"
    by (simp_all add: beatFrame_def visibleFrom_def lodUsable_def exampleVis_def
        getCurrentLodLevel_def exampleLod_def DEFAULT_LOD_LEVELS_def)
  have g: "gate 0.9 (exampleVis\<lparr>visFrameCount := 1\<rparr>)
        = Inr (False, exampleVis\<lparr>visFrameCount := 1,
                 lodManager := Some ((exampleLod 0)\<lparr>frameCounter := 1\<rparr>)\<rparr>)"
    by (simp add: update_unfold exampleVis_def exampleLod_def DEFAULT_LOD_LEVELS_def)
  from beat_forces_update [OF h, of "\<lambda>a v. v" 1 "[]"] h g show ?thesis by simp
qed

text \<open>
  The same visualization, gate and importance with a beat of confidence 0.3: the frame
  is skipped.
\<close>

lemma weak_beat_skipped_example:
  "\<exists>s1. update uv 1 weakBeatFrame [] None exampleVis = Inr (Skipped s1)"
  by (simp add: update_unfold exampleVis_def weakBeatFrame_def exampleLod_def
      DEFAULT_LOD_LEVELS_def)


end
